theory Spec2Isabelle
  imports Complex_Main
begin

section \<open>Shared data: upstream events, the Redis list store, the session state\<close>

text \<open>
  The three web variants (\<^verbatim>\<open>app.py\<close>, \<^verbatim>\<open>appv2.py\<close>, \<^verbatim>\<open>web-log.py\<close>) share one shape of
  state: a current pod, a log queue, a stop event and a handle on the stream thread.
  In \<^verbatim>\<open>app.py\<close> these are the entries of the per-session dict \<^verbatim>\<open>state\<close>; in the two
  other files they are module globals. The Redis client and the pool of started
  threads are process wide.

  What \<^verbatim>\<open>w.stream(v1.read_namespaced_pod_log, ...)\<close> hands to the worker is a sequence
  of events: a line, an \<^verbatim>\<open>ApiException\<close> raised instead of a line, or an exception of
  another type raised instead of a line (a transport error of the client, which no
  \<^verbatim>\<open>except\<close> clause of the workers catches). The end of the list is the upstream
  closing the connection.

  A thread is described by what it still has to receive and by whether it is running;
  one step of a thread is one iteration of its loop, from the read of the next upstream
  event to the end of the loop body. What the handlers print on the terminal and the
  pauses (\<^verbatim>\<open>time.sleep\<close>) are left out; the readings of \<^verbatim>\<open>time.time()\<close> are inputs.
\<close>

datatype upstream = Line string | ApiException string | OtherException string

record pod_ref =
  pod_name :: string
  pod_namespace :: string

type_synonym redis_db = "string \<Rightarrow> string list"

text \<open>Redis lists; a key that does not exist is the empty list.\<close>

definition redis_lrange_all :: "redis_db \<Rightarrow> string \<Rightarrow> string list" where
  "redis_lrange_all r key = r key"

definition redis_rpush :: "redis_db \<Rightarrow> string \<Rightarrow> string \<Rightarrow> redis_db" where
  "redis_rpush r key v = r(key := r key @ [v])"

definition redis_llen :: "redis_db \<Rightarrow> string \<Rightarrow> nat" where
  "redis_llen r key = length (r key)"

definition redis_lpop :: "redis_db \<Rightarrow> string \<Rightarrow> redis_db" where
  "redis_lpop r key = r(key := tl (r key))"

definition redis_delete :: "redis_db \<Rightarrow> string \<Rightarrow> redis_db" where
  "redis_delete r key = r(key := [])"

text \<open>\<^verbatim>\<open>cache_key = f"logs:{namespace}:{pod_name}"\<close>\<close>

definition cache_key :: "string \<Rightarrow> string \<Rightarrow> string" where
  "cache_key namespace pname = ''logs:'' @ namespace @ '':'' @ pname"

definition END_MARKER :: string where
  "END_MARKER = ''__END__''"

text \<open>\<^verbatim>\<open>error_msg = f"Error streaming logs: {e}"\<close>\<close>

definition error_msg :: "string \<Rightarrow> string" where
  "error_msg e = ''Error streaming logs: '' @ e"

text \<open>
  The state, generic in the record that describes a started thread (the session
  scoped worker of \<^verbatim>\<open>app.py\<close> and the reconnecting worker of \<^verbatim>\<open>appv2.py\<close> keep
  different locals). \<open>stream_thread\<close> holds the index of the thread in \<open>threads\<close>.
\<close>

record 't world =
  current_pod :: "pod_ref option"
  log_queue :: "string list"
  stop_event :: bool
  stream_thread :: "nat option"
  redis_client :: redis_db
  threads :: "'t list"

text \<open>\<^verbatim>\<open>log_queue.put(x)\<close>\<close>

definition put :: "string \<Rightarrow> 't world \<Rightarrow> 't world" where
  "put x st = st\<lparr>log_queue := log_queue st @ [x]\<rparr>"

text \<open>
  \<^verbatim>\<open>while not q.empty(): q.get_nowait()\<close>: one item leaves the queue per iteration.
\<close>

fun drain :: "string list \<Rightarrow> string list" where
  "drain [] = []"
| "drain (x # q) = drain q"

definition clear_queue :: "'t world \<Rightarrow> 't world" where
  "clear_queue st = st\<lparr>log_queue := drain (log_queue st)\<rparr>"

text \<open>
  \<^verbatim>\<open>redis_client.rpush(cache_key, line); if redis_client.llen(cache_key) > 1000:
  redis_client.lpop(cache_key)\<close>
\<close>

definition cache_line :: "string \<Rightarrow> string \<Rightarrow> redis_db \<Rightarrow> redis_db" where
  "cache_line key line r =
     (let r1 = redis_rpush r key line
      in if redis_llen r1 key > 1000 then redis_lpop r1 key else r1)"

section \<open>The session scoped variant (\<^verbatim>\<open>app.py\<close>)\<close>

record thread =
  t_pod_name :: string
  t_namespace :: string
  t_stream :: "upstream list"
  t_alive :: bool

definition is_alive :: "thread world \<Rightarrow> nat \<Rightarrow> bool" where
  "is_alive st tid = (tid < length (threads st) \<and> t_alive (threads st ! tid))"

text \<open>
  The \<^verbatim>\<open>finally\<close> block of \<^verbatim>\<open>streamer\<close>: the end marker, then the current pod is
  cleared, and the thread is over.
\<close>

definition streamer_finally :: "nat \<Rightarrow> thread world \<Rightarrow> thread world" where
  "streamer_finally tid st =
     (let st1 = put END_MARKER st;
          st2 = st1\<lparr>current_pod := None\<rparr>
      in st2\<lparr>threads := (threads st2)[tid := (threads st2 ! tid)\<lparr>t_alive := False\<rparr>]\<rparr>)"

text \<open>
  One iteration of \<^verbatim>\<open>streamer\<close>: the thread waits for the next upstream event and
  handles it. An exception that is not an \<^verbatim>\<open>ApiException\<close> goes through the \<^verbatim>\<open>finally\<close>
  block and ends the thread. A thread that is over does nothing more.
\<close>

definition streamer_step :: "nat \<Rightarrow> thread world \<Rightarrow> thread world" where
  "streamer_step tid st =
     (if is_alive st tid then
        (let th = threads st ! tid;
             key = cache_key (t_namespace th) (t_pod_name th)
         in case t_stream th of
              [] \<Rightarrow> streamer_finally tid st
            | Line line # rest \<Rightarrow>
                if stop_event st then streamer_finally tid st
                else (let st1 = put line st;
                          st2 = st1\<lparr>redis_client := cache_line key line (redis_client st1)\<rparr>
                      in st2\<lparr>threads := (threads st2)[tid := th\<lparr>t_stream := rest\<rparr>]\<rparr>)
            | ApiException e # rest \<Rightarrow>
                (let st1 = put (error_msg e) st;
                     st2 = st1\<lparr>redis_client := redis_rpush (redis_client st1) key (error_msg e)\<rparr>
                 in streamer_finally tid st2)
            | OtherException e # rest \<Rightarrow> streamer_finally tid st)
      else st)"

text \<open>
  \<^verbatim>\<open>stream_thread.join(timeout=2.0)\<close>: the caller waits while the thread goes through
  \<open>n\<close> iterations, as many as the upstream lets it make within the timeout
  (\<open>n = 0\<close>: the thread is still blocked in its read when the timeout expires).
\<close>

definition join :: "nat \<Rightarrow> nat \<Rightarrow> thread world \<Rightarrow> thread world" where
  "join n tid st = (streamer_step tid ^^ n) st"

definition stop_log_streaming :: "nat \<Rightarrow> thread world \<Rightarrow> thread world" where
  "stop_log_streaming n st =
     (let st1 = st\<lparr>stop_event := True\<rparr>
      in case stream_thread st1 of
           None \<Rightarrow> st1
         | Some tid \<Rightarrow>
             if is_alive st1 tid then (join n tid st1)\<lparr>stream_thread := None\<rparr>
             else st1)"

text \<open>
  \<open>src\<close> is what the follow connection of the new thread is going to deliver.
\<close>

definition start_log_streaming ::
  "string list \<Rightarrow> string \<Rightarrow> string \<Rightarrow> upstream list \<Rightarrow> thread world \<Rightarrow> thread world" where
  "start_log_streaming allowed pname namespace src st =
     (if namespace \<notin> set allowed then st
      else
        (let st1 = st\<lparr>current_pod := Some \<lparr>pod_name = pname, pod_namespace = namespace\<rparr>\<rparr>;
             st2 = st1\<lparr>stop_event := False\<rparr>;
             st3 = clear_queue st2;
             key = cache_key namespace pname;
             st4 = st3\<lparr>redis_client := redis_delete (redis_client st3) key\<rparr>;
             th = \<lparr>t_pod_name = pname, t_namespace = namespace, t_stream = src, t_alive = True\<rparr>
         in st4\<lparr>stream_thread := Some (length (threads st4)),
                threads := threads st4 @ [th]\<rparr>))"

datatype response = OK | Forbidden

text \<open>
  \<^verbatim>\<open>select_pod\<close> up to the end of its warm start loop (the state in which it calls
  \<^verbatim>\<open>start_log_streaming\<close>), and the whole handler.
\<close>

definition select_pod_seeded :: "nat \<Rightarrow> string \<Rightarrow> string \<Rightarrow> thread world \<Rightarrow> thread world" where
  "select_pod_seeded n namespace pname st =
     (let st1 = stop_log_streaming n st;
          cached_logs = redis_lrange_all (redis_client st1) (cache_key namespace pname)
      in fold put cached_logs st1)"

definition select_pod ::
  "string list \<Rightarrow> nat \<Rightarrow> string \<Rightarrow> string \<Rightarrow> upstream list \<Rightarrow> thread world
     \<Rightarrow> response \<times> thread world" where
  "select_pod allowed n namespace pname src st =
     (if namespace \<notin> set allowed then (Forbidden, st)
      else (OK, start_log_streaming allowed pname namespace src
                  (select_pod_seeded n namespace pname st)))"

text \<open>
  The thread runs undisturbed until it is over: every iteration consumes one upstream
  event or ends the thread, so one iteration more than there are events is enough.
\<close>

definition run_streamer :: "nat \<Rightarrow> thread world \<Rightarrow> thread world" where
  "run_streamer tid st = join (Suc (length (t_stream (threads st ! tid)))) tid st"



text \<open>
  The test of \<^verbatim>\<open>stop_log_streaming\<close>, negated: the session holds no thread, or one that
  is over.
\<close>

definition no_active_worker :: "thread world \<Rightarrow> bool" where
  "no_active_worker st =
     (case stream_thread st of None \<Rightarrow> True | Some tid \<Rightarrow> \<not> is_alive st tid)"

subsection \<open>Listing entry points\<close>

text \<open>
  The cluster API the handlers call: each call answers with its items or raises an
  \<^verbatim>\<open>ApiException\<close> (\<open>Inl\<close>, with the text of the exception).
\<close>

record k8s =
  list_namespace :: "string + string list"
  list_namespaced_pod :: "string \<Rightarrow> string + pod_ref list"
  list_pod_for_all_namespaces :: "string + pod_ref list"

text \<open>
  \<^verbatim>\<open>list_pods(namespace)\<close>: \<^verbatim>\<open>if namespace:\<close> holds for a string that is not empty; the
  result numbers the pods from 1.
\<close>

definition list_pods :: "string list \<Rightarrow> k8s \<Rightarrow> string option \<Rightarrow> (nat \<times> pod_ref) list" where
  "list_pods allowed v1 namespace =
     (if namespace \<noteq> None \<and> namespace \<noteq> Some [] then
        (if the namespace \<notin> set allowed then []
         else case list_namespaced_pod v1 (the namespace) of
                Inl e \<Rightarrow> []
              | Inr pods \<Rightarrow> zip [1 ..< Suc (length pods)] pods)
      else
        (case list_pod_for_all_namespaces v1 of
           Inl e \<Rightarrow> []
         | Inr items \<Rightarrow>
             (let pods = filter (\<lambda>pod. pod_namespace pod \<in> set allowed) items
              in zip [1 ..< Suc (length pods)] pods)))"

datatype 'a http = Json 'a | Error403 | Error500 string

definition get_namespaces :: "string list \<Rightarrow> k8s \<Rightarrow> string list http" where
  "get_namespaces allowed v1 =
     (case list_namespace v1 of
        Inl e \<Rightarrow> Error500 e
      | Inr namespaces \<Rightarrow> Json (filter (\<lambda>ns. ns \<in> set allowed) namespaces))"

definition get_pods_in_namespace :: "string list \<Rightarrow> k8s \<Rightarrow> string \<Rightarrow> pod_ref list http" where
  "get_pods_in_namespace allowed v1 namespace =
     (if namespace \<notin> set allowed then Error403
      else Json (map snd (list_pods allowed v1 (Some namespace))))"

section \<open>The first web variant (\<^verbatim>\<open>web-log.py\<close>)\<close>

text \<open>
  No allow list and no cache. \<^verbatim>\<open>streamer\<close> is nested in \<^verbatim>\<open>start_log_streaming\<close> and has
  no \<^verbatim>\<open>global\<close> statement of its own, so its \<^verbatim>\<open>current_pod = None\<close> binds a local
  name of \<^verbatim>\<open>streamer\<close>: the module's \<^verbatim>\<open>current_pod\<close> is not written.
\<close>

definition streamer_finally_weblog :: "nat \<Rightarrow> thread world \<Rightarrow> thread world" where
  "streamer_finally_weblog tid st =
     (let st1 = put END_MARKER st
      in st1\<lparr>threads := (threads st1)[tid := (threads st1 ! tid)\<lparr>t_alive := False\<rparr>]\<rparr>)"

definition streamer_step_weblog :: "nat \<Rightarrow> thread world \<Rightarrow> thread world" where
  "streamer_step_weblog tid st =
     (if is_alive st tid then
        (let th = threads st ! tid
         in case t_stream th of
              [] \<Rightarrow> streamer_finally_weblog tid st
            | Line line # rest \<Rightarrow>
                if stop_event st then streamer_finally_weblog tid st
                else (let st1 = put line st
                      in st1\<lparr>threads := (threads st1)[tid := th\<lparr>t_stream := rest\<rparr>]\<rparr>)
            | ApiException e # rest \<Rightarrow> streamer_finally_weblog tid (put (error_msg e) st)
            | OtherException e # rest \<Rightarrow> streamer_finally_weblog tid st)
      else st)"

definition stop_log_streaming_weblog :: "nat \<Rightarrow> thread world \<Rightarrow> thread world" where
  "stop_log_streaming_weblog n st =
     (let st1 = st\<lparr>stop_event := True\<rparr>
      in case stream_thread st1 of
           None \<Rightarrow> st1
         | Some tid \<Rightarrow>
             if is_alive st1 tid
             then ((streamer_step_weblog tid ^^ n) st1)\<lparr>stream_thread := None\<rparr>
             else st1)"

definition start_log_streaming_weblog ::
  "string \<Rightarrow> string \<Rightarrow> upstream list \<Rightarrow> thread world \<Rightarrow> thread world" where
  "start_log_streaming_weblog pname namespace src st =
     (let st1 = st\<lparr>current_pod := Some \<lparr>pod_name = pname, pod_namespace = namespace\<rparr>\<rparr>;
          st2 = st1\<lparr>stop_event := False\<rparr>;
          st3 = clear_queue st2;
          th = \<lparr>t_pod_name = pname, t_namespace = namespace, t_stream = src, t_alive = True\<rparr>
      in st3\<lparr>stream_thread := Some (length (threads st3)),
             threads := threads st3 @ [th]\<rparr>)"

definition select_pod_weblog ::
  "nat \<Rightarrow> string \<Rightarrow> string \<Rightarrow> upstream list \<Rightarrow> thread world \<Rightarrow> response \<times> thread world" where
  "select_pod_weblog n namespace pname src st =
     (OK, start_log_streaming_weblog pname namespace src (stop_log_streaming_weblog n st))"

section \<open>The reconnecting variant (\<^verbatim>\<open>appv2.py\<close>)\<close>

definition ALLOWED_NAMESPACES_v2 :: "string list" where
  "ALLOWED_NAMESPACES_v2 = [''kavosh'', ''secure'', ''bizagi'']"

text \<open>
  \<^verbatim>\<open>line.split(' ', 1)\<close>: at most one split, at the first space; with an explicit
  separator empty pieces are kept.
\<close>

definition split_first_space :: "string \<Rightarrow> string list" where
  "split_first_space line =
     (if CHR '' '' \<in> set line
      then [takeWhile (\<lambda>c. c \<noteq> CHR '' '') line, tl (dropWhile (\<lambda>c. c \<noteq> CHR '' '') line)]
      else [line])"

text \<open>
  \<^verbatim>\<open>parts = line.split(' ', 1); if len(parts) == 2: last_timestamp = parts[0];
  msg = parts[1]; else: msg = line\<close>. The result is the new \<^verbatim>\<open>last_timestamp\<close> and \<^verbatim>\<open>msg\<close>.
\<close>

definition parse_line :: "string \<Rightarrow> string option \<Rightarrow> string option \<times> string" where
  "parse_line line last_timestamp =
     (case split_first_space line of
        [ts, msg] \<Rightarrow> (Some ts, msg)
      | _ \<Rightarrow> (last_timestamp, line))"

text \<open>
  The arguments of a follow call that depend on the thread's state:
  \<^verbatim>\<open>'tail_lines': 100 if last_timestamp is None else 0\<close> and
  \<^verbatim>\<open>if last_timestamp: kwargs['since_time'] = last_timestamp\<close> (an empty string is
  false in Python).
\<close>

record request =
  tail_lines :: nat
  since_time :: "string option"

definition follow_request :: "string option \<Rightarrow> request" where
  "follow_request last_timestamp =
     \<lparr>tail_lines = (if last_timestamp = None then 100 else 0),
      since_time = (case last_timestamp of
                      None \<Rightarrow> None
                    | Some ts \<Rightarrow> if ts = [] then None else Some ts)\<rparr>"

text \<open>
  The locals of the reconnecting \<^verbatim>\<open>streamer\<close>. \<open>v_follow k req\<close> is what the \<open>k\<close>-th follow
  connection delivers when opened with the request \<open>req\<close>; \<open>v_stream\<close> is \<open>None\<close> at the
  head of the outer \<^verbatim>\<open>while\<close> loop and holds the rest of the open connection inside the
  \<^verbatim>\<open>for\<close> loop.
\<close>

record thread_v2 =
  v_pod_name :: string
  v_namespace :: string
  v_follow :: "nat \<Rightarrow> request \<Rightarrow> upstream list"
  v_attempt :: nat
  v_stream :: "upstream list option"
  v_last_timestamp :: "string option"
  v_alive :: bool

definition is_alive_v2 :: "thread_v2 world \<Rightarrow> nat \<Rightarrow> bool" where
  "is_alive_v2 st tid = (tid < length (threads st) \<and> v_alive (threads st ! tid))"

text \<open>
  One step of the reconnecting \<^verbatim>\<open>streamer\<close>. At the head of the \<^verbatim>\<open>while\<close> loop it reads
  the stop event: set, the thread puts the end marker and is over (its
  \<^verbatim>\<open>current_pod = None\<close> binds a local name, \<^verbatim>\<open>streamer\<close> having no \<^verbatim>\<open>global\<close> statement
  of its own, so the module's \<^verbatim>\<open>current_pod\<close> is not written); clear, it opens a follow
  connection. Inside the \<^verbatim>\<open>for\<close> loop it handles the next upstream event; the end of
  the connection, a \<^verbatim>\<open>break\<close> and an \<^verbatim>\<open>ApiException\<close> all lead back to the head of the
  \<^verbatim>\<open>while\<close> loop. An exception of another type is not caught: after the inner
  \<^verbatim>\<open>finally\<close> it leaves \<^verbatim>\<open>streamer\<close>, and the thread is over without an end marker.
\<close>

definition streamer_step_v2 :: "nat \<Rightarrow> thread_v2 world \<Rightarrow> thread_v2 world" where
  "streamer_step_v2 tid st =
     (if is_alive_v2 st tid then
        (let th = threads st ! tid;
             key = cache_key (v_namespace th) (v_pod_name th)
         in case v_stream th of
              None \<Rightarrow>
                if stop_event st
                then (let st1 = put END_MARKER st
                      in st1\<lparr>threads := (threads st1)[tid := th\<lparr>v_alive := False\<rparr>]\<rparr>)
                else st\<lparr>threads := (threads st)[tid :=
                        th\<lparr>v_stream := Some (v_follow th (v_attempt th)
                                                 (follow_request (v_last_timestamp th))),
                           v_attempt := Suc (v_attempt th)\<rparr>]\<rparr>
            | Some [] \<Rightarrow> st\<lparr>threads := (threads st)[tid := th\<lparr>v_stream := None\<rparr>]\<rparr>
            | Some (Line line # rest) \<Rightarrow>
                if stop_event st
                then st\<lparr>threads := (threads st)[tid := th\<lparr>v_stream := None\<rparr>]\<rparr>
                else (let (ts, msg) = parse_line line (v_last_timestamp th);
                          st1 = put msg st;
                          st2 = st1\<lparr>redis_client := cache_line key msg (redis_client st1)\<rparr>
                      in st2\<lparr>threads := (threads st2)[tid :=
                              th\<lparr>v_stream := Some rest, v_last_timestamp := ts\<rparr>]\<rparr>)
            | Some (ApiException e # rest) \<Rightarrow>
                (let st1 = put (error_msg e) st;
                     st2 = st1\<lparr>redis_client := redis_rpush (redis_client st1) key (error_msg e)\<rparr>
                 in st2\<lparr>threads := (threads st2)[tid := th\<lparr>v_stream := None\<rparr>]\<rparr>)
            | Some (OtherException e # rest) \<Rightarrow>
                st\<lparr>threads := (threads st)[tid := th\<lparr>v_alive := False\<rparr>]\<rparr>)
      else st)"

definition stop_log_streaming_v2 :: "nat \<Rightarrow> thread_v2 world \<Rightarrow> thread_v2 world" where
  "stop_log_streaming_v2 n st =
     (let st1 = st\<lparr>stop_event := True\<rparr>
      in case stream_thread st1 of
           None \<Rightarrow> st1
         | Some tid \<Rightarrow>
             if is_alive_v2 st1 tid
             then ((streamer_step_v2 tid ^^ n) st1)\<lparr>stream_thread := None\<rparr>
             else st1)"

definition start_log_streaming_v2 ::
  "string \<Rightarrow> string \<Rightarrow> (nat \<Rightarrow> request \<Rightarrow> upstream list) \<Rightarrow> thread_v2 world \<Rightarrow> thread_v2 world" where
  "start_log_streaming_v2 pname namespace follow st =
     (if namespace \<notin> set ALLOWED_NAMESPACES_v2 then st
      else
        (let st1 = st\<lparr>current_pod := Some \<lparr>pod_name = pname, pod_namespace = namespace\<rparr>\<rparr>;
             st2 = st1\<lparr>stop_event := False\<rparr>;
             st3 = clear_queue st2;
             key = cache_key namespace pname;
             st4 = st3\<lparr>redis_client := redis_delete (redis_client st3) key\<rparr>;
             th = \<lparr>v_pod_name = pname, v_namespace = namespace, v_follow = follow,
                   v_attempt = 0, v_stream = None, v_last_timestamp = None, v_alive = True\<rparr>
         in st4\<lparr>stream_thread := Some (length (threads st4)),
                threads := threads st4 @ [th]\<rparr>))"

definition select_pod_v2 ::
  "nat \<Rightarrow> string \<Rightarrow> string \<Rightarrow> (nat \<Rightarrow> request \<Rightarrow> upstream list) \<Rightarrow> thread_v2 world
     \<Rightarrow> response \<times> thread_v2 world" where
  "select_pod_v2 n namespace pname follow st =
     (if namespace \<notin> set ALLOWED_NAMESPACES_v2 then (Forbidden, st)
      else (OK, start_log_streaming_v2 pname namespace follow
                  (clear_queue (stop_log_streaming_v2 n st))))"

definition get_pods_in_namespace_v2 :: "k8s \<Rightarrow> string \<Rightarrow> pod_ref list http" where
  "get_pods_in_namespace_v2 v1 namespace =
     (if namespace \<notin> set ALLOWED_NAMESPACES_v2 then Error403
      else Json (map snd (list_pods ALLOWED_NAMESPACES_v2 v1 (Some namespace))))"

section \<open>The event feed (\<^verbatim>\<open>generate\<close> of the \<^verbatim>\<open>/logs\<close> handler)\<close>

text \<open>
  The three files have the same generator up to three constants: the heartbeat
  interval (10 in \<^verbatim>\<open>app.py\<close> and \<^verbatim>\<open>appv2.py\<close>, 15 in \<^verbatim>\<open>web-log.py\<close>), whether a log line
  resets \<^verbatim>\<open>has_yielded_waiting\<close> (not in \<^verbatim>\<open>appv2.py\<close>) and whether a log event carries a
  timestamp (not in \<^verbatim>\<open>web-log.py\<close>).
\<close>

record feed_variant =
  heartbeat_after :: real
  resets_waiting :: bool
  stamps_logs :: bool

definition app_feed :: feed_variant where
  "app_feed = \<lparr>heartbeat_after = 10, resets_waiting = True, stamps_logs = True\<rparr>"

definition appv2_feed :: feed_variant where
  "appv2_feed = \<lparr>heartbeat_after = 10, resets_waiting = False, stamps_logs = True\<rparr>"

definition weblog_feed :: feed_variant where
  "weblog_feed = \<lparr>heartbeat_after = 15, resets_waiting = True, stamps_logs = False\<rparr>"

datatype event =
    Connected
  | LogEvent string "real option"
  | NoPodSelected
  | Waiting
  | Heartbeat
  | StreamEnded

record adapter =
  last_yield_time :: real
  has_yielded_waiting :: bool

text \<open>
  One iteration of the \<^verbatim>\<open>while\<close> loop of \<^verbatim>\<open>generate\<close>. \<open>(t1, t2)\<close> are the readings of
  \<^verbatim>\<open>time.time()\<close> the iteration takes (the branch of an empty queue takes only the
  first). The result is the frames it yields, each with the value \<^verbatim>\<open>last_yield_time\<close>
  has once the frame is out, the locals of the generator (\<open>None\<close> when it has returned)
  and the state. A set stop event and the end marker both leave the loop, after which
  the closing frame is yielded.
\<close>

definition generate_iter ::
  "feed_variant \<Rightarrow> real \<times> real \<Rightarrow> adapter \<Rightarrow> 't world
     \<Rightarrow> (event \<times> real) list \<times> adapter option \<times> 't world" where
  "generate_iter v tick a st =
     (if stop_event st then ([(StreamEnded, last_yield_time a)], None, st)
      else case log_queue st of
        line # q \<Rightarrow>
          if line = END_MARKER
          then ([(StreamEnded, last_yield_time a)], None, st\<lparr>log_queue := q\<rparr>)
          else ([(LogEvent line (if stamps_logs v then Some (fst tick) else None), snd tick)],
                Some (a\<lparr>last_yield_time := snd tick,
                         has_yielded_waiting :=
                           (if resets_waiting v then False else has_yielded_waiting a)\<rparr>),
                st\<lparr>log_queue := q\<rparr>)
      | [] \<Rightarrow>
          if current_pod st = None
          then ([(NoPodSelected, fst tick)], Some (a\<lparr>last_yield_time := fst tick\<rparr>), st)
          else if \<not> has_yielded_waiting a
          then ([(Waiting, fst tick)],
                Some (a\<lparr>last_yield_time := fst tick, has_yielded_waiting := True\<rparr>), st)
          else if fst tick - last_yield_time a > heartbeat_after v
          then ([(Heartbeat, fst tick)], Some (a\<lparr>last_yield_time := fst tick\<rparr>), st)
          else ([], Some a, st))"

text \<open>
  The loop, one iteration per element of \<open>ticks\<close>, with no other thread running in
  between; when \<open>ticks\<close> runs out the generator is still polling.
\<close>

fun generate_loop ::
  "feed_variant \<Rightarrow> (real \<times> real) list \<Rightarrow> adapter \<Rightarrow> 't world \<Rightarrow> (event \<times> real) list \<times> 't world" where
  "generate_loop v [] a st = ([], st)"
| "generate_loop v (tick # ticks) a st =
     (case generate_iter v tick a st of
        (frames, None, st1) \<Rightarrow> (frames, st1)
      | (frames, Some a1, st1) \<Rightarrow>
          (case generate_loop v ticks a1 st1 of (later, st2) \<Rightarrow> (frames @ later, st2)))"

text \<open>
  \<^verbatim>\<open>generate\<close>: the connection frame, the first reading \<open>t0\<close> of the clock, the loop.
\<close>

definition generate ::
  "feed_variant \<Rightarrow> real \<Rightarrow> (real \<times> real) list \<Rightarrow> 't world \<Rightarrow> (event \<times> real) list \<times> 't world" where
  "generate v t0 ticks st =
     (case generate_loop v ticks \<lparr>last_yield_time = t0, has_yielded_waiting = False\<rparr> st of
        (frames, st1) \<Rightarrow> ((Connected, t0) # frames, st1))"

text \<open>
  Frames that are all heartbeats, each more than \<open>gap\<close> after the frame before it
  (\<open>t\<close> is the time of the frame before the first).
\<close>

fun heartbeats_spaced :: "real \<Rightarrow> real \<Rightarrow> (event \<times> real) list \<Rightarrow> bool" where
  "heartbeats_spaced gap t [] = True"
| "heartbeats_spaced gap t ((e, t1) # frames) =
     (e = Heartbeat \<and> gap < t1 - t \<and> heartbeats_spaced gap t1 frames)"

text \<open>
  A feed is idle on a state whose stop event is clear, whose queue is empty and whose
  current pod is set.
\<close>

definition idle_feed :: "'t world \<Rightarrow> bool" where
  "idle_feed st = (\<not> stop_event st \<and> log_queue st = [] \<and> current_pod st \<noteq> None)"

section \<open>Example states\<close>

text \<open>
  What \<^verbatim>\<open>_get_or_create_state\<close> allocates for a new session (no pod, an empty queue, a
  cleared stop event, no thread), with an empty cache and no thread started. The
  globals of \<^verbatim>\<open>web-log.py\<close> have the same values when the module is loaded.
\<close>

definition fresh_session :: "thread world" where
  "fresh_session =
     \<lparr>current_pod = None, log_queue = [], stop_event = False, stream_thread = None,
      redis_client = (\<lambda>key. []), threads = []\<rparr>"

text \<open>
  A session that follows pod \<open>pA\<close> of \<open>kavosh\<close>: the line \<open>a1\<close> waits in its queue, its
  worker (thread 0) has two more lines to receive, and the cache holds one line of an
  earlier run of pod \<open>pB\<close>.
\<close>

definition busy_session :: "thread world" where
  "busy_session =
     \<lparr>current_pod = Some \<lparr>pod_name = ''pA'', pod_namespace = ''kavosh''\<rparr>,
      log_queue = [''a1''], stop_event = False, stream_thread = Some 0,
      redis_client = (\<lambda>key. [])(cache_key ''kavosh'' ''pB'' := [''c1'']),
      threads = [\<lparr>t_pod_name = ''pA'', t_namespace = ''kavosh'',
                  t_stream = [Line ''a2'', Line ''a3''], t_alive = True\<rparr>]\<rparr>"

text \<open>
  A cluster with a pod in an allowed namespace and one in \<open>kube-system\<close>.
\<close>

definition example_cluster :: k8s where
  "example_cluster =
     \<lparr>list_namespace = Inr [''kavosh'', ''kube-system''],
      list_namespaced_pod = (\<lambda>ns. Inr [\<lparr>pod_name = ''etcd'', pod_namespace = ns\<rparr>]),
      list_pod_for_all_namespaces =
        Inr [\<lparr>pod_name = ''p1'', pod_namespace = ''kavosh''\<rparr>,
             \<lparr>pod_name = ''etcd'', pod_namespace = ''kube-system''\<rparr>]\<rparr>"

text \<open>
  The globals of \<^verbatim>\<open>appv2.py\<close> when the module is loaded, with an empty cache.
\<close>

definition fresh_globals :: "thread_v2 world" where
  "fresh_globals =
     \<lparr>current_pod = None, log_queue = [], stop_event = False, stream_thread = None,
      redis_client = (\<lambda>key. []), threads = []\<rparr>"

text \<open>
  An upstream whose first follow connection delivers the lines \<open>ls\<close> and closes, and
  whose later connections close at once.
\<close>

definition follow_once :: "string list \<Rightarrow> nat \<Rightarrow> request \<Rightarrow> upstream list" where
  "follow_once ls k req = (if k = 0 then map Line ls else [])"

section \<open>The worker of \<^verbatim>\<open>app.py\<close>, iteration by iteration\<close>

lemma drain_empty: "drain q = []"
  by (induction q) simp_all

lemma fold_put: "fold put xs st = st\<lparr>log_queue := log_queue st @ xs\<rparr>"
  by (induction xs arbitrary: st) (simp_all add: put_def)

lemma streamer_step_dead: "\<not> is_alive st tid \<Longrightarrow> streamer_step tid st = st"
  by (simp add: streamer_step_def)

lemma funpow_dead: "\<not> is_alive st tid \<Longrightarrow> (streamer_step tid ^^ k) st = st"
  by (induction k) (simp_all add: streamer_step_dead)

lemma streamer_step_line:
  assumes "is_alive st tid" "\<not> stop_event st" "t_stream (threads st ! tid) = Line line # rest"
  shows "streamer_step tid st =
     st\<lparr>log_queue := log_queue st @ [line],
        redis_client := cache_line (cache_key (t_namespace (threads st ! tid)) (t_pod_name (threads st ! tid))) line (redis_client st),
        threads := (threads st)[tid := (threads st ! tid)\<lparr>t_stream := rest\<rparr>]\<rparr>"
  using assms by (simp add: streamer_step_def put_def Let_def)

lemma streamer_steps_lines:
  assumes "is_alive st tid" "\<not> stop_event st" "t_stream (threads st ! tid) = map Line ls @ rest"
  shows "(streamer_step tid ^^ length ls) st =
     st\<lparr>log_queue := log_queue st @ ls,
        redis_client := fold (cache_line (cache_key (t_namespace (threads st ! tid)) (t_pod_name (threads st ! tid)))) ls (redis_client st),
        threads := (threads st)[tid := (threads st ! tid)\<lparr>t_stream := rest\<rparr>]\<rparr>"
  using assms
proof (induction ls arbitrary: st)
  case Nil
  have "rest = t_stream (threads st ! tid)" using Nil.prems(3) by simp
  then show ?case by simp
next
  case (Cons l ls)
  let ?st1 = "streamer_step tid st"
  have s1: "?st1 = st\<lparr>log_queue := log_queue st @ [l],
        redis_client := cache_line (cache_key (t_namespace (threads st ! tid)) (t_pod_name (threads st ! tid))) l (redis_client st),
        threads := (threads st)[tid := (threads st ! tid)\<lparr>t_stream := map Line ls @ rest\<rparr>]\<rparr>"
    using Cons.prems by (simp add: streamer_step_line)
  have a: "is_alive ?st1 tid" "\<not> stop_event ?st1" "t_stream (threads ?st1 ! tid) = map Line ls @ rest"
    using Cons.prems by (simp_all add: s1 is_alive_def)
  have "(streamer_step tid ^^ length (l # ls)) st = (streamer_step tid ^^ length ls) ?st1"
    by (simp add: funpow_swap1)
  also have "\<dots> = ?st1\<lparr>log_queue := log_queue ?st1 @ ls,
        redis_client := fold (cache_line (cache_key (t_namespace (threads ?st1 ! tid)) (t_pod_name (threads ?st1 ! tid)))) ls (redis_client ?st1),
        threads := (threads ?st1)[tid := (threads ?st1 ! tid)\<lparr>t_stream := rest\<rparr>]\<rparr>"
    by (rule Cons.IH[OF a])
  also have "\<dots> = st\<lparr>log_queue := log_queue st @ (l # ls),
        redis_client := fold (cache_line (cache_key (t_namespace (threads st ! tid)) (t_pod_name (threads st ! tid)))) (l # ls) (redis_client st),
        threads := (threads st)[tid := (threads st ! tid)\<lparr>t_stream := rest\<rparr>]\<rparr>"
    using Cons.prems by (simp add: s1 is_alive_def)
  finally show ?case .
qed


lemma streamer_step_end:
  assumes "is_alive st tid" "t_stream (threads st ! tid) = []"
  shows "streamer_step tid st =
     st\<lparr>current_pod := None, log_queue := log_queue st @ [END_MARKER],
        threads := (threads st)[tid := (threads st ! tid)\<lparr>t_alive := False\<rparr>]\<rparr>"
  using assms by (simp add: streamer_step_def streamer_finally_def put_def Let_def)

lemma streamer_step_stopped:
  assumes "is_alive st tid" "stop_event st" "t_stream (threads st ! tid) = Line line # rest"
  shows "streamer_step tid st =
     st\<lparr>current_pod := None, log_queue := log_queue st @ [END_MARKER],
        threads := (threads st)[tid := (threads st ! tid)\<lparr>t_alive := False\<rparr>]\<rparr>"
  using assms by (simp add: streamer_step_def streamer_finally_def put_def Let_def)

lemma streamer_step_error:
  assumes "is_alive st tid" "t_stream (threads st ! tid) = ApiException e # rest"
  shows "streamer_step tid st =
     st\<lparr>current_pod := None, log_queue := log_queue st @ [error_msg e, END_MARKER],
        redis_client := redis_rpush (redis_client st)
           (cache_key (t_namespace (threads st ! tid)) (t_pod_name (threads st ! tid))) (error_msg e),
        threads := (threads st)[tid := (threads st ! tid)\<lparr>t_alive := False\<rparr>]\<rparr>"
  using assms by (simp add: streamer_step_def streamer_finally_def put_def Let_def)

text \<open>Running on: first the lines, then the event that ends the thread, then nothing.\<close>

lemma funpow_split:
  "(streamer_step tid ^^ (Suc (a + b))) st =
     (streamer_step tid ^^ b) (streamer_step tid ((streamer_step tid ^^ a) st))"
proof -
  have "(streamer_step tid ^^ (Suc (a + b))) st = (streamer_step tid ^^ (b + Suc a)) st"
    by (simp add: add.commute)
  also have "\<dots> = (streamer_step tid ^^ b) ((streamer_step tid ^^ Suc a) st)"
    by (simp only: funpow_add o_apply)
  finally show ?thesis by simp
qed

lemma run_streamer_split:
  assumes "is_alive st tid" "\<not> stop_event st" "t_stream (threads st ! tid) = map Line ls @ rest"
    and "\<not> is_alive (streamer_step tid ((streamer_step tid ^^ length ls) st)) tid"
  shows "run_streamer tid st = streamer_step tid ((streamer_step tid ^^ length ls) st)"
proof -
  have "run_streamer tid st = (streamer_step tid ^^ Suc (length ls + length rest)) st"
    using assms(3) by (simp add: run_streamer_def join_def)
  also have "\<dots> = (streamer_step tid ^^ length rest)
                      (streamer_step tid ((streamer_step tid ^^ length ls) st))"
    by (rule funpow_split)
  also have "\<dots> = streamer_step tid ((streamer_step tid ^^ length ls) st)"
    using assms(4) by (rule funpow_dead)
  finally show ?thesis .
qed

lemma run_streamer_normal_end:
  assumes "is_alive st tid" "\<not> stop_event st" "t_stream (threads st ! tid) = map Line ls"
  shows "log_queue (run_streamer tid st) = log_queue st @ ls @ [END_MARKER]"
    and "\<not> is_alive (run_streamer tid st) tid"
    and "current_pod (run_streamer tid st) = None"
proof -
  let ?m = "(streamer_step tid ^^ length ls) st"
  have m: "?m = st\<lparr>log_queue := log_queue st @ ls,
        redis_client := fold (cache_line (cache_key (t_namespace (threads st ! tid)) (t_pod_name (threads st ! tid)))) ls (redis_client st),
        threads := (threads st)[tid := (threads st ! tid)\<lparr>t_stream := []\<rparr>]\<rparr>"
    using streamer_steps_lines[OF assms(1,2), of ls "[]"] assms(3) by simp
  have am: "is_alive ?m tid" "t_stream (threads ?m ! tid) = []"
    using assms(1) by (simp_all add: m is_alive_def)
  have f: "streamer_step tid ?m = ?m\<lparr>current_pod := None, log_queue := log_queue ?m @ [END_MARKER],
        threads := (threads ?m)[tid := (threads ?m ! tid)\<lparr>t_alive := False\<rparr>]\<rparr>"
    by (rule streamer_step_end[OF am])
  have d: "\<not> is_alive (streamer_step tid ?m) tid"
    using assms(1) unfolding f by (simp add: is_alive_def m)
  have r: "run_streamer tid st = streamer_step tid ?m"
    using run_streamer_split[OF assms(1,2), of ls "[]"] assms(3) d by simp
  show "log_queue (run_streamer tid st) = log_queue st @ ls @ [END_MARKER]"
    unfolding r f by (simp add: m)
  show "\<not> is_alive (run_streamer tid st) tid" using d r by simp
  show "current_pod (run_streamer tid st) = None" unfolding r f by simp
qed


lemma run_streamer_first:
  assumes "\<not> is_alive (streamer_step tid st) tid"
  shows "run_streamer tid st = streamer_step tid st"
proof -
  have "run_streamer tid st =
          (streamer_step tid ^^ length (t_stream (threads st ! tid))) (streamer_step tid st)"
    by (simp add: run_streamer_def join_def funpow_swap1)
  then show ?thesis using assms by (simp add: funpow_dead)
qed

lemma run_streamer_error:
  assumes "is_alive st tid" "\<not> stop_event st"
    "t_stream (threads st ! tid) = map Line ls @ ApiException e # rest"
  shows "log_queue (run_streamer tid st) = log_queue st @ ls @ [error_msg e, END_MARKER]"
    and "\<not> is_alive (run_streamer tid st) tid"
    and "current_pod (run_streamer tid st) = None"
    and "redis_client (run_streamer tid st) =
           redis_rpush (fold (cache_line (cache_key (t_namespace (threads st ! tid))
                                                    (t_pod_name (threads st ! tid))))
                             ls (redis_client st))
             (cache_key (t_namespace (threads st ! tid)) (t_pod_name (threads st ! tid)))
             (error_msg e)"
proof -
  let ?m = "(streamer_step tid ^^ length ls) st"
  have m: "?m = st\<lparr>log_queue := log_queue st @ ls,
        redis_client := fold (cache_line (cache_key (t_namespace (threads st ! tid)) (t_pod_name (threads st ! tid)))) ls (redis_client st),
        threads := (threads st)[tid := (threads st ! tid)\<lparr>t_stream := ApiException e # rest\<rparr>]\<rparr>"
    by (rule streamer_steps_lines[OF assms])
  have am: "is_alive ?m tid" "t_stream (threads ?m ! tid) = ApiException e # rest"
    using assms(1) by (simp_all add: m is_alive_def)
  note f = streamer_step_error[OF am]
  have d: "\<not> is_alive (streamer_step tid ?m) tid"
    using assms(1) unfolding f by (simp add: is_alive_def m)
  have r: "run_streamer tid st = streamer_step tid ?m"
    by (rule run_streamer_split[OF assms d])
  show "log_queue (run_streamer tid st) = log_queue st @ ls @ [error_msg e, END_MARKER]"
    unfolding r f by (simp add: m)
  show "\<not> is_alive (run_streamer tid st) tid" using d r by simp
  show "current_pod (run_streamer tid st) = None" unfolding r f by simp
  show "redis_client (run_streamer tid st) =
           redis_rpush (fold (cache_line (cache_key (t_namespace (threads st ! tid))
                                                    (t_pod_name (threads st ! tid))))
                             ls (redis_client st))
             (cache_key (t_namespace (threads st ! tid)) (t_pod_name (threads st ! tid)))
             (error_msg e)"
    using assms(1) unfolding r f by (simp add: m is_alive_def)
qed

lemma run_streamer_stopped:
  assumes "is_alive st tid" "\<not> stop_event st"
    "t_stream (threads st ! tid) = map Line ls @ Line l # rest"
  shows "log_queue (run_streamer tid ((join (length ls) tid st)\<lparr>stop_event := True\<rparr>))
           = log_queue st @ ls @ [END_MARKER]"
    and "\<not> is_alive (run_streamer tid ((join (length ls) tid st)\<lparr>stop_event := True\<rparr>)) tid"
    and "current_pod (run_streamer tid ((join (length ls) tid st)\<lparr>stop_event := True\<rparr>)) = None"
proof -
  let ?m = "(join (length ls) tid st)\<lparr>stop_event := True\<rparr>"
  have m: "?m = st\<lparr>log_queue := log_queue st @ ls, stop_event := True,
        redis_client := fold (cache_line (cache_key (t_namespace (threads st ! tid)) (t_pod_name (threads st ! tid)))) ls (redis_client st),
        threads := (threads st)[tid := (threads st ! tid)\<lparr>t_stream := Line l # rest\<rparr>]\<rparr>"
    unfolding join_def streamer_steps_lines[OF assms] by simp
  have am: "is_alive ?m tid" "stop_event ?m" "t_stream (threads ?m ! tid) = Line l # rest"
    using assms(1) by (simp_all add: m is_alive_def)
  note f = streamer_step_stopped[OF am]
  have d: "\<not> is_alive (streamer_step tid ?m) tid"
    using assms(1) unfolding f by (simp add: is_alive_def m)
  have r: "run_streamer tid ?m = streamer_step tid ?m"
    by (rule run_streamer_first[OF d])
  show "log_queue (run_streamer tid ?m) = log_queue st @ ls @ [END_MARKER]"
    unfolding r f by (simp add: m)
  show "\<not> is_alive (run_streamer tid ?m) tid" using d r by simp
  show "current_pod (run_streamer tid ?m) = None" unfolding r f by simp
qed

lemma streamer_step_other_exception:
  assumes "is_alive st tid" "t_stream (threads st ! tid) = OtherException e # rest"
  shows "streamer_step tid st =
     st\<lparr>current_pod := None, log_queue := log_queue st @ [END_MARKER],
        threads := (threads st)[tid := (threads st ! tid)\<lparr>t_alive := False\<rparr>]\<rparr>"
  using assms by (simp add: streamer_step_def streamer_finally_def put_def Let_def)

lemma run_streamer_other_exception:
  assumes "is_alive st tid" "\<not> stop_event st"
    "t_stream (threads st ! tid) = map Line ls @ OtherException e # rest"
  shows "log_queue (run_streamer tid st) = log_queue st @ ls @ [END_MARKER]"
    and "\<not> is_alive (run_streamer tid st) tid"
proof -
  let ?m = "(streamer_step tid ^^ length ls) st"
  have m: "?m = st\<lparr>log_queue := log_queue st @ ls,
        redis_client := fold (cache_line (cache_key (t_namespace (threads st ! tid)) (t_pod_name (threads st ! tid)))) ls (redis_client st),
        threads := (threads st)[tid := (threads st ! tid)\<lparr>t_stream := OtherException e # rest\<rparr>]\<rparr>"
    by (rule streamer_steps_lines[OF assms])
  have am: "is_alive ?m tid" "t_stream (threads ?m ! tid) = OtherException e # rest"
    using assms(1) by (simp_all add: m is_alive_def)
  note f = streamer_step_other_exception[OF am]
  have d: "\<not> is_alive (streamer_step tid ?m) tid"
    using assms(1) unfolding f by (simp add: is_alive_def m)
  have r: "run_streamer tid st = streamer_step tid ?m"
    by (rule run_streamer_split[OF assms d])
  show "log_queue (run_streamer tid st) = log_queue st @ ls @ [END_MARKER]"
    unfolding r f by (simp add: m)
  show "\<not> is_alive (run_streamer tid st) tid" using d r by simp
qed

lemma cache_line_key:
  "cache_line key l r key = (if 1000 \<le> length (r key) then tl (r key @ [l]) else r key @ [l])"
  by (simp add: cache_line_def redis_rpush_def redis_llen_def redis_lpop_def Let_def)

lemma cache_line_other: "k \<noteq> key \<Longrightarrow> cache_line key l r k = r k"
  by (simp add: cache_line_def redis_rpush_def redis_llen_def redis_lpop_def Let_def)

lemma fold_cache_line:
  "length (r key) \<le> 1000 \<Longrightarrow>
     fold (cache_line key) ls r key = drop (length (r key) + length ls - 1000) (r key @ ls)"
proof (induction ls arbitrary: r)
  case Nil
  then show ?case by simp
next
  case (Cons l ls)
  show ?case
  proof (cases "length (r key) = 1000")
    case True
    then have ne: "r key \<noteq> []" by auto
    have k: "cache_line key l r key = tl (r key) @ [l]"
      using True ne by (simp add: cache_line_key)
    have len: "length (cache_line key l r key) = 1000" using True ne by (simp add: k)
    have "fold (cache_line key) (l # ls) r key = fold (cache_line key) ls (cache_line key l r) key"
      by simp
    also have "\<dots> = drop (length ls) (tl (r key) @ l # ls)"
      using Cons.IH[of "cache_line key l r"] len by (simp add: k)
    also have "\<dots> = drop (Suc (length ls)) (r key @ l # ls)"
      using ne by (cases "r key") simp_all
    finally show ?thesis using True by simp
  next
    case False
    with Cons.prems have lt: "length (r key) < 1000" by simp
    have k: "cache_line key l r key = r key @ [l]"
      using lt by (simp add: cache_line_key)
    have "fold (cache_line key) (l # ls) r key = fold (cache_line key) ls (cache_line key l r) key"
      by simp
    also have "\<dots> = drop (Suc (length (r key)) + length ls - 1000) ((r key @ [l]) @ ls)"
      using Cons.IH[of "cache_line key l r"] lt by (simp add: k)
    finally show ?thesis by simp
  qed
qed

lemma fold_cache_line_bounded:
  "length (r key) \<le> 1000 \<Longrightarrow> length (fold (cache_line key) ls r key) \<le> 1000"
  by (simp add: fold_cache_line)

section \<open>Pod selection in \<^verbatim>\<open>app.py\<close>\<close>

lemma select_pod_seeded_queue:
  "log_queue (select_pod_seeded n namespace pname st) =
     log_queue (stop_log_streaming n st)
       @ redis_client (stop_log_streaming n st) (cache_key namespace pname)"
  by (simp add: select_pod_seeded_def Let_def fold_put redis_lrange_all_def)

lemma select_pod_seeded_rest:
  "threads (select_pod_seeded n namespace pname st) = threads (stop_log_streaming n st)"
  "redis_client (select_pod_seeded n namespace pname st) = redis_client (stop_log_streaming n st)"
  by (simp_all add: select_pod_seeded_def Let_def fold_put)

lemma start_log_streaming_allowed:
  assumes "namespace \<in> set allowed"
  shows "start_log_streaming allowed pname namespace src st =
     st\<lparr>current_pod := Some \<lparr>pod_name = pname, pod_namespace = namespace\<rparr>,
        log_queue := [], stop_event := False,
        stream_thread := Some (length (threads st)),
        redis_client := (redis_client st)(cache_key namespace pname := []),
        threads := threads st @ [\<lparr>t_pod_name = pname, t_namespace = namespace,
                                   t_stream = src, t_alive = True\<rparr>]\<rparr>"
  using assms
  by (simp add: start_log_streaming_def Let_def clear_queue_def drain_empty redis_delete_def)

lemma select_pod_allowed:
  assumes "namespace \<in> set allowed"
  shows "select_pod allowed n namespace pname src st =
     (OK, (stop_log_streaming n st)
        \<lparr>current_pod := Some \<lparr>pod_name = pname, pod_namespace = namespace\<rparr>,
         log_queue := [], stop_event := False,
         stream_thread := Some (length (threads (stop_log_streaming n st))),
         redis_client := (redis_client (stop_log_streaming n st))(cache_key namespace pname := []),
         threads := threads (stop_log_streaming n st)
                      @ [\<lparr>t_pod_name = pname, t_namespace = namespace,
                           t_stream = src, t_alive = True\<rparr>]\<rparr>)"
  using assms
  by (simp add: select_pod_def start_log_streaming_allowed select_pod_seeded_rest)

text \<open>
  Claim C10. In \<^verbatim>\<open>app.py\<close> an accepted pod selection reads the cache entry of the pod
  for the warm start (the lines read are put on the queue behind what the queue holds
  after the stop), and \<^verbatim>\<open>start_log_streaming\<close> then deletes the entry before the new
  thread has received anything: when \<^verbatim>\<open>select_pod\<close> returns the entry is empty,
  whatever an earlier run of the pod left there, and the new thread still has its
  whole stream before it. From then on the entry holds only lines of the new run: after
  the thread has handled the lines \<open>ls\<close>, the entry is the last 1000 of \<open>ls\<close>.
\<close>

theorem select_pod_deletes_cache:
  assumes "namespace \<in> set allowed"
  shows "log_queue (select_pod_seeded n namespace pname st) =
           log_queue (stop_log_streaming n st)
             @ redis_lrange_all (redis_client (stop_log_streaming n st)) (cache_key namespace pname)
       \<and> redis_client (snd (select_pod allowed n namespace pname src st)) (cache_key namespace pname) = []
       \<and> redis_client (start_log_streaming allowed pname namespace src st) (cache_key namespace pname) = []
       \<and> threads (snd (select_pod allowed n namespace pname src st)) =
           threads (stop_log_streaming n st)
             @ [\<lparr>t_pod_name = pname, t_namespace = namespace, t_stream = src, t_alive = True\<rparr>]
       \<and> (src = map Line ls @ rest \<longrightarrow>
            redis_client (join (length ls) (length (threads (stop_log_streaming n st)))
                            (snd (select_pod allowed n namespace pname src st)))
              (cache_key namespace pname) = drop (length ls - 1000) ls)"
proof -
  let ?s = "stop_log_streaming n st"
  let ?tid = "length (threads ?s)"
  let ?st = "snd (select_pod allowed n namespace pname src st)"
  note sp = select_pod_allowed[OF assms, of n pname src st]
  have a: "log_queue (select_pod_seeded n namespace pname st) =
           log_queue ?s @ redis_lrange_all (redis_client ?s) (cache_key namespace pname)"
    by (simp add: select_pod_seeded_queue redis_lrange_all_def)
  have b: "redis_client ?st (cache_key namespace pname) = []"
    by (simp add: sp)
  have c: "redis_client (start_log_streaming allowed pname namespace src st) (cache_key namespace pname) = []"
    by (simp add: start_log_streaming_allowed[OF assms])
  have d: "threads ?st = threads ?s
             @ [\<lparr>t_pod_name = pname, t_namespace = namespace, t_stream = src, t_alive = True\<rparr>]"
    by (simp add: sp)
  have e: "redis_client (join (length ls) ?tid ?st) (cache_key namespace pname)
             = drop (length ls - 1000) ls" if src: "src = map Line ls @ rest"
  proof -
    have al: "is_alive ?st ?tid" by (simp add: is_alive_def sp)
    have ns: "\<not> stop_event ?st" by (simp add: sp)
    have ts: "t_stream (threads ?st ! ?tid) = map Line ls @ rest" unfolding sp using src by simp
    have k: "cache_key (t_namespace (threads ?st ! ?tid)) (t_pod_name (threads ?st ! ?tid))
               = cache_key namespace pname" by (simp add: sp)
    have "redis_client (join (length ls) ?tid ?st) =
            fold (cache_line (cache_key namespace pname)) ls (redis_client ?st)"
      unfolding join_def streamer_steps_lines[OF al ns ts] k by simp
    then show ?thesis using b by (simp add: fold_cache_line)
  qed
  from a b c d e show ?thesis by blast
qed

theorem select_pod_deletes_cache_witness:
  "''kavosh'' \<in> set [''kavosh'', ''secure'']
   \<and> redis_client busy_session (cache_key ''kavosh'' ''pB'') = [''c1'']
   \<and> redis_client (snd (select_pod [''kavosh'', ''secure''] 1 ''kavosh'' ''pB''
                             [Line ''b1'', Line ''b2''] busy_session))
        (cache_key ''kavosh'' ''pB'') = []
   \<and> redis_client (join 2 1 (snd (select_pod [''kavosh'', ''secure''] 1 ''kavosh'' ''pB''
                             [Line ''b1'', Line ''b2''] busy_session)))
        (cache_key ''kavosh'' ''pB'') = [''b1'', ''b2'']"
proof -
  have h: "''kavosh'' \<in> set [''kavosh'', ''secure'']" by simp
  have t: "length (threads (stop_log_streaming 1 busy_session)) = 1"
    by (simp add: stop_log_streaming_def busy_session_def is_alive_def join_def
        streamer_step_def streamer_finally_def put_def Let_def)
  have c: "redis_client busy_session (cache_key ''kavosh'' ''pB'') = [''c1'']"
    by (simp add: busy_session_def)
  have l: "length [''b1'', ''b2''] = 2" "[Line ''b1'', Line ''b2''] = map Line [''b1'', ''b2''] @ []"
    by simp_all
  note r = select_pod_deletes_cache[OF h, of 1 "''pB''" busy_session "[Line ''b1'', Line ''b2'']"
        "[''b1'', ''b2'']" "[]", unfolded t l(1)]
  from r l(2) have
    "redis_client (join 2 1 (snd (select_pod [''kavosh'', ''secure''] 1 ''kavosh'' ''pB''
                             [Line ''b1'', Line ''b2''] busy_session)))
        (cache_key ''kavosh'' ''pB'') = drop (2 - 1000) [''b1'', ''b2'']"
    by blast
  with r h c show ?thesis by simp
qed

section \<open>Stopping and restarting in \<^verbatim>\<open>app.py\<close>\<close>

lemma streamer_step_frame:
  "length (threads (streamer_step tid st)) = length (threads st)"
  "stop_event (streamer_step tid st) = stop_event st"
  "stream_thread (streamer_step tid st) = stream_thread st"
  by (simp_all add: streamer_step_def streamer_finally_def put_def Let_def
      split: list.splits upstream.splits)



lemma join_frame:
  "length (threads (join n tid st)) = length (threads st)"
  "stop_event (join n tid st) = stop_event st"
  "stream_thread (join n tid st) = stream_thread st"
  by (induction n) (simp_all add: join_def streamer_step_frame)




lemma stop_log_streaming_frame:
  "stop_event (stop_log_streaming n st)"
  "length (threads (stop_log_streaming n st)) = length (threads st)"
  by (simp_all add: stop_log_streaming_def Let_def join_frame split: option.splits)

lemma is_alive_stop_event [simp]:
  "is_alive (st\<lparr>stop_event := b\<rparr>) tid = is_alive st tid"
  by (simp add: is_alive_def)

lemma stop_log_streaming_no_worker:
  assumes "\<And>tid. stream_thread st = Some tid \<Longrightarrow> \<not> is_alive st tid"
  shows "stop_log_streaming n st = st\<lparr>stop_event := True\<rparr>"
proof (cases "stream_thread st")
  case None
  then show ?thesis by (simp add: stop_log_streaming_def)
next
  case (Some tid)
  with assms have "\<not> is_alive st tid" by simp
  with Some show ?thesis by (simp add: stop_log_streaming_def)
qed





lemma stop_log_streaming_handle:
  "stream_thread (stop_log_streaming n st) = Some tid \<Longrightarrow> \<not> is_alive (stop_log_streaming n st) tid"
  by (cases "stream_thread st")
     (auto simp: stop_log_streaming_def Let_def split: if_splits)

lemma set_stop_event_again: "stop_event st \<Longrightarrow> st\<lparr>stop_event := True\<rparr> = st"
  by simp

lemma stop_log_streaming_idem:
  "stop_log_streaming m (stop_log_streaming n st) = stop_log_streaming n st"
proof -
  have "stop_log_streaming m (stop_log_streaming n st)
          = (stop_log_streaming n st)\<lparr>stop_event := True\<rparr>"
    by (rule stop_log_streaming_no_worker) (rule stop_log_streaming_handle)
  then show ?thesis
    by (simp add: set_stop_event_again stop_log_streaming_frame)
qed






lemma busy_session_stop_1:
  "stop_log_streaming 1 busy_session =
     busy_session\<lparr>current_pod := None, log_queue := [''a1'', END_MARKER], stop_event := True,
                  stream_thread := None,
                  threads := [\<lparr>t_pod_name = ''pA'', t_namespace = ''kavosh'',
                              t_stream = [Line ''a2'', Line ''a3''], t_alive = False\<rparr>]\<rparr>"
  by (simp add: stop_log_streaming_def busy_session_def is_alive_def join_def
      streamer_step_def streamer_finally_def put_def Let_def)





section \<open>The warm start of \<^verbatim>\<open>app.py\<close>\<close>

text \<open>
  Claim C1, on the code. The session follows pod \<open>pA\<close>, the line \<open>a1\<close> of that pod is
  still in its queue, and the cache holds \<open>c1\<close> for pod \<open>pB\<close>. \<^verbatim>\<open>select_pod\<close> for \<open>pB\<close>
  stops the worker (which puts its end marker) and puts the cached line on the queue,
  which has not been cleared: \<open>c1\<close> stands behind \<open>a1\<close>. Only then does
  \<^verbatim>\<open>start_log_streaming\<close> clear the queue, the warm start lines with it, and delete the
  cache entry: the handler returns with an empty queue and an empty cache entry.
\<close>

theorem select_pod_seeds_uncleared_queue:
  "log_queue (select_pod_seeded 1 ''kavosh'' ''pB'' busy_session) = [''a1'', END_MARKER, ''c1'']
   \<and> select_pod [''kavosh'', ''secure'', ''bizagi''] 1 ''kavosh'' ''pB'' [Line ''b1''] busy_session
       = (OK, start_log_streaming [''kavosh'', ''secure'', ''bizagi''] ''pB'' ''kavosh'' [Line ''b1'']
                (select_pod_seeded 1 ''kavosh'' ''pB'' busy_session))
   \<and> log_queue (snd (select_pod [''kavosh'', ''secure'', ''bizagi''] 1 ''kavosh'' ''pB''
                        [Line ''b1''] busy_session)) = []
   \<and> redis_client (snd (select_pod [''kavosh'', ''secure'', ''bizagi''] 1 ''kavosh'' ''pB''
                        [Line ''b1''] busy_session)) (cache_key ''kavosh'' ''pB'') = []"
proof -
  have h: "''kavosh'' \<in> set [''kavosh'', ''secure'', ''bizagi'']" by simp
  have a: "log_queue (select_pod_seeded 1 ''kavosh'' ''pB'' busy_session)
             = [''a1'', END_MARKER, ''c1'']"
    unfolding select_pod_seeded_queue busy_session_stop_1 by (simp add: busy_session_def)
  have b: "select_pod [''kavosh'', ''secure'', ''bizagi''] 1 ''kavosh'' ''pB'' [Line ''b1''] busy_session
       = (OK, start_log_streaming [''kavosh'', ''secure'', ''bizagi''] ''pB'' ''kavosh'' [Line ''b1'']
                (select_pod_seeded 1 ''kavosh'' ''pB'' busy_session))"
    by (simp add: select_pod_def)
  have c: "log_queue (snd (select_pod [''kavosh'', ''secure'', ''bizagi''] 1 ''kavosh'' ''pB''
                        [Line ''b1''] busy_session)) = []"
    by (simp add: select_pod_allowed[OF h])
  have d: "redis_client (snd (select_pod [''kavosh'', ''secure'', ''bizagi''] 1 ''kavosh'' ''pB''
                        [Line ''b1''] busy_session)) (cache_key ''kavosh'' ''pB'') = []"
    by (simp add: select_pod_allowed[OF h])
  from a b c d show ?thesis by blast
qed

section \<open>Stopping twice, stopping an idle session\<close>

text \<open>
  Claim C9, as the code has it. \<^verbatim>\<open>stop_log_streaming\<close> is idempotent. On a session whose
  \<^verbatim>\<open>stream_thread\<close> is \<^verbatim>\<open>None\<close> or a thread that is over, it changes nothing but the stop
  event, which it sets: the queue, the current pod, the cache, the threads and the
  handle stay. The stop event is what the loop of \<^verbatim>\<open>generate\<close> tests first, so a
  connected feed yields its closing frame at its next iteration and returns.
\<close>

theorem stop_log_streaming_idempotent:
  "stop_log_streaming m (stop_log_streaming n st) = stop_log_streaming n st
   \<and> (no_active_worker st \<longrightarrow>
        stop_log_streaming n st = st\<lparr>stop_event := True\<rparr>
        \<and> generate_iter v tick a (stop_log_streaming n st)
            = ([(StreamEnded, last_yield_time a)], None, st\<lparr>stop_event := True\<rparr>))"
proof -
  have "stop_log_streaming n st = st\<lparr>stop_event := True\<rparr>" if "no_active_worker st"
    by (rule stop_log_streaming_no_worker) (use that in \<open>simp add: no_active_worker_def\<close>)
  then show ?thesis
    by (simp add: stop_log_streaming_idem generate_iter_def)
qed

theorem stop_log_streaming_idempotent_witness:
  "no_active_worker fresh_session
   \<and> stop_log_streaming 3 (stop_log_streaming 2 busy_session) = stop_log_streaming 2 busy_session
   \<and> log_queue (stop_log_streaming 1 fresh_session) = []
   \<and> current_pod (stop_log_streaming 1 fresh_session) = None
   \<and> stop_event (stop_log_streaming 1 fresh_session)"
proof -
  have h: "no_active_worker fresh_session"
    by (simp add: no_active_worker_def fresh_session_def)
  show ?thesis
    using stop_log_streaming_idempotent[of 3 2 busy_session app_feed "(1, 1)"
        "\<lparr>last_yield_time = 0, has_yielded_waiting = False\<rparr>"]
      stop_log_streaming_idempotent[of 1 1 fresh_session app_feed "(1, 1)"
        "\<lparr>last_yield_time = 0, has_yielded_waiting = False\<rparr>"] h
    by (simp add: fresh_session_def)
qed

text \<open>
  The claim as stated fails for the feed: on a new session, with no pod and no worker,
  a connected feed that finds the queue empty yields the frame that no pod is selected
  and goes on polling; once \<^verbatim>\<open>stop_log_streaming\<close> has run it yields the closing frame
  and returns.
\<close>

theorem stop_log_streaming_ends_feed:
  "no_active_worker fresh_session
   \<and> fst (generate app_feed 0 [(1, 1), (2, 2)] fresh_session)
       = [(Connected, 0), (NoPodSelected, 1), (NoPodSelected, 2)]
   \<and> fst (generate app_feed 0 [(1, 1), (2, 2)] (stop_log_streaming 0 fresh_session))
       = [(Connected, 0), (StreamEnded, 0)]"
  by (simp add: no_active_worker_def fresh_session_def stop_log_streaming_def generate_def
      generate_iter_def app_feed_def)

section \<open>The allow list\<close>

lemma list_pods_disallowed:
  assumes "namespace \<notin> set allowed"
  shows "\<forall>entry \<in> set (list_pods allowed v1 (Some namespace)). pod_namespace (snd entry) \<in> set allowed"
    and "namespace \<noteq> [] \<Longrightarrow> list_pods allowed v1 (Some namespace) = []"
proof -
  show "namespace \<noteq> [] \<Longrightarrow> list_pods allowed v1 (Some namespace) = []"
    using assms by (simp add: list_pods_def)
  show "\<forall>entry \<in> set (list_pods allowed v1 (Some namespace)). pod_namespace (snd entry) \<in> set allowed"
  proof (cases "namespace = []")
    case False
    then show ?thesis using assms by (simp add: list_pods_def)
  next
    case True
    show ?thesis
    proof (cases "list_pod_for_all_namespaces v1")
      case (Inl e)
      then show ?thesis using True by (simp add: list_pods_def)
    next
      case (Inr items)
      have "pod_namespace (snd entry) \<in> set allowed"
        if "entry \<in> set (zip [1 ..< Suc (length ps)] ps)"
          "ps = filter (\<lambda>pod. pod_namespace pod \<in> set allowed) items" for entry ps
      proof -
        have "snd entry \<in> set ps" using that(1) by (metis prod.collapse set_zip_rightD)
        then show ?thesis using that(2) by simp
      qed
      then show ?thesis using True Inr by (simp add: list_pods_def Let_def)
    qed
  qed
qed

text \<open>
  Claim C4, as the code has it. In \<^verbatim>\<open>app.py\<close> and \<^verbatim>\<open>appv2.py\<close> a namespace outside the
  allow list is turned away at every entry point: \<^verbatim>\<open>select_pod\<close> answers 403 and leaves
  the state as it is (no thread is started), \<^verbatim>\<open>start_log_streaming\<close> returns without
  effect, \<^verbatim>\<open>get_pods_in_namespace\<close> answers 403, \<^verbatim>\<open>list_pods\<close> returns no pod of that
  namespace whatever the cluster answers (nothing at all when the name is not empty),
  and \<^verbatim>\<open>get_namespaces\<close> never lists it.
\<close>

theorem disallowed_namespace_rejected:
  "(namespace \<notin> set allowed \<longrightarrow>
      select_pod allowed n namespace pname src st = (Forbidden, st)
      \<and> start_log_streaming allowed pname namespace src st = st
      \<and> get_pods_in_namespace allowed v1 namespace = Error403
      \<and> (namespace \<noteq> [] \<longrightarrow> list_pods allowed v1 (Some namespace) = [])
      \<and> (\<forall>entry \<in> set (list_pods allowed v1 (Some namespace)).
            pod_namespace (snd entry) \<noteq> namespace)
      \<and> (\<forall>entry \<in> set (list_pods allowed v1 None). pod_namespace (snd entry) \<noteq> namespace)
      \<and> (\<forall>names. get_namespaces allowed v1 = Json names \<longrightarrow> namespace \<notin> set names))
   \<and> (namespace \<notin> set ALLOWED_NAMESPACES_v2 \<longrightarrow>
      select_pod_v2 n namespace pname follow st2 = (Forbidden, st2)
      \<and> start_log_streaming_v2 pname namespace follow st2 = st2
      \<and> get_pods_in_namespace_v2 v1 namespace = Error403)"
proof -
  have a: "\<forall>entry \<in> set (list_pods allowed v1 (Some namespace)).
            pod_namespace (snd entry) \<noteq> namespace" if "namespace \<notin> set allowed"
    using list_pods_disallowed(1)[OF that, of v1] that by auto
  have b: "\<forall>entry \<in> set (list_pods allowed v1 None). pod_namespace (snd entry) \<noteq> namespace"
    if h: "namespace \<notin> set allowed"
  proof (cases "list_pod_for_all_namespaces v1")
    case (Inl e)
    then show ?thesis by (simp add: list_pods_def)
  next
    case (Inr items)
    have "pod_namespace (snd entry) \<noteq> namespace"
      if "entry \<in> set (zip [1 ..< Suc (length ps)] ps)"
        "ps = filter (\<lambda>pod. pod_namespace pod \<in> set allowed) items" for entry ps
    proof -
      have "snd entry \<in> set ps" using that(1) by (metis prod.collapse set_zip_rightD)
      then show ?thesis using that(2) h by auto
    qed
    then show ?thesis using Inr by (simp add: list_pods_def Let_def)
  qed
  have c: "namespace \<notin> set names" if "namespace \<notin> set allowed" "get_namespaces allowed v1 = Json names"
    for names
    using that by (auto simp: get_namespaces_def split: sum.splits)
  show ?thesis
    using a b c
    by (simp add: select_pod_def start_log_streaming_def get_pods_in_namespace_def
        list_pods_def select_pod_v2_def start_log_streaming_v2_def get_pods_in_namespace_v2_def)
qed

theorem disallowed_namespace_rejected_witness:
  "''kube-system'' \<notin> set [''kavosh'', ''secure'', ''bizagi'']
   \<and> ''kube-system'' \<notin> set ALLOWED_NAMESPACES_v2
   \<and> select_pod [''kavosh'', ''secure'', ''bizagi''] 1 ''kube-system'' ''etcd'' [Line ''x''] busy_session
       = (Forbidden, busy_session)
   \<and> get_pods_in_namespace [''kavosh'', ''secure'', ''bizagi''] example_cluster ''kube-system'' = Error403
   \<and> list_pods [''kavosh'', ''secure'', ''bizagi''] example_cluster (Some ''kube-system'') = []
   \<and> list_pods [''kavosh'', ''secure'', ''bizagi''] example_cluster None
       = [(1, \<lparr>pod_name = ''p1'', pod_namespace = ''kavosh''\<rparr>)]
   \<and> get_namespaces [''kavosh'', ''secure'', ''bizagi''] example_cluster = Json [''kavosh'']"
proof -
  have h: "''kube-system'' \<notin> set [''kavosh'', ''secure'', ''bizagi'']"
    "''kube-system'' \<notin> set ALLOWED_NAMESPACES_v2"
    by (simp_all add: ALLOWED_NAMESPACES_v2_def)
  have l: "list_pods [''kavosh'', ''secure'', ''bizagi''] example_cluster None
       = [(1, \<lparr>pod_name = ''p1'', pod_namespace = ''kavosh''\<rparr>)]"
    by (simp add: list_pods_def example_cluster_def)
  have g: "get_namespaces [''kavosh'', ''secure'', ''bizagi''] example_cluster = Json [''kavosh'']"
    by (simp add: get_namespaces_def example_cluster_def)
  show ?thesis
    using disallowed_namespace_rejected[of "''kube-system''" "[''kavosh'', ''secure'', ''bizagi'']"
        1 "''etcd''" "[Line ''x'']" busy_session example_cluster] h l g
    by simp
qed

text \<open>
  The claim as stated fails on \<^verbatim>\<open>web-log.py\<close>, which has no allow list: its
  \<^verbatim>\<open>select_pod\<close> answers OK for any namespace and starts a thread that follows the pod
  in it.
\<close>

theorem select_pod_weblog_accepts_any:
  "''kube-system'' \<notin> set [''kavosh'', ''secure'', ''bizagi'']
   \<and> fst (select_pod_weblog 0 ''kube-system'' ''etcd'' [Line ''x''] fresh_session) = OK
   \<and> threads (snd (select_pod_weblog 0 ''kube-system'' ''etcd'' [Line ''x''] fresh_session))
       = [\<lparr>t_pod_name = ''etcd'', t_namespace = ''kube-system'', t_stream = [Line ''x''],
            t_alive = True\<rparr>]
   \<and> log_queue (streamer_step_weblog 0
         (snd (select_pod_weblog 0 ''kube-system'' ''etcd'' [Line ''x''] fresh_session))) = [''x'']"
  by (simp add: select_pod_weblog_def start_log_streaming_weblog_def
      stop_log_streaming_weblog_def fresh_session_def clear_queue_def Let_def
      streamer_step_weblog_def is_alive_def put_def)

section \<open>The size of a cache entry\<close>

lemma select_pod_fresh_session:
  assumes "namespace \<in> set allowed"
  shows "snd (select_pod allowed n namespace pname src fresh_session) =
     \<lparr>current_pod = Some \<lparr>pod_name = pname, pod_namespace = namespace\<rparr>,
      log_queue = [], stop_event = False, stream_thread = Some 0,
      redis_client = (\<lambda>key. []),
      threads = [\<lparr>t_pod_name = pname, t_namespace = namespace, t_stream = src, t_alive = True\<rparr>]\<rparr>"
proof -
  have s: "stop_log_streaming n fresh_session = fresh_session\<lparr>stop_event := True\<rparr>"
    by (rule stop_log_streaming_no_worker) (simp add: fresh_session_def)
  have f: "(\<lambda>key. [])(cache_key namespace pname := []) = (\<lambda>key. ([]::string list))"
    by auto
  show ?thesis
    unfolding select_pod_allowed[OF assms] s by (simp add: fresh_session_def f)
qed

lemma fresh_worker_cache:
  assumes "namespace \<in> set allowed"
  shows "redis_client
           (join (length ls) 0
              (snd (select_pod allowed n namespace pname (map Line ls @ rest) fresh_session)))
           (cache_key namespace pname) = drop (length ls - 1000) ls"
    and "redis_client
           (run_streamer 0
              (snd (select_pod allowed n namespace pname (map Line ls @ [ApiException e])
                      fresh_session)))
           (cache_key namespace pname) = drop (length ls - 1000) ls @ [error_msg e]"
proof -
  let ?key = "cache_key namespace pname"
  have al: "is_alive (snd (select_pod allowed n namespace pname src fresh_session)) 0"
    "\<not> stop_event (snd (select_pod allowed n namespace pname src fresh_session))"
    "t_stream (threads (snd (select_pod allowed n namespace pname src fresh_session)) ! 0) = src"
    "redis_client (snd (select_pod allowed n namespace pname src fresh_session)) ?key = []"
    "cache_key (t_namespace (threads (snd (select_pod allowed n namespace pname src fresh_session)) ! 0))
               (t_pod_name (threads (snd (select_pod allowed n namespace pname src fresh_session)) ! 0))
       = ?key" for src
    unfolding select_pod_fresh_session[OF assms] by (simp_all add: is_alive_def)
  show "redis_client
           (join (length ls) 0
              (snd (select_pod allowed n namespace pname (map Line ls @ rest) fresh_session)))
           ?key = drop (length ls - 1000) ls"
    unfolding join_def streamer_steps_lines[OF al(1,2,3)] al(5)
    using al(4)[of "map Line ls @ rest"] by (simp add: fold_cache_line)
  have e: "map Line ls @ [ApiException e] = map Line ls @ ApiException e # []" by simp
  show "redis_client
           (run_streamer 0
              (snd (select_pod allowed n namespace pname (map Line ls @ [ApiException e])
                      fresh_session)))
           ?key = drop (length ls - 1000) ls @ [error_msg e]"
    unfolding run_streamer_error(4)[OF al(1,2) al(3)[unfolded e]] al(5)
    using al(4)[of "map Line ls @ [ApiException e]"]
    by (simp add: redis_rpush_def fold_cache_line)
qed

text \<open>
  Claim C5, on the code. A session selects pod \<open>p1\<close>; the upstream delivers 1000 lines
  and then raises an \<^verbatim>\<open>ApiException\<close>. After the 1000 lines the cache entry holds 1000
  lines; the \<^verbatim>\<open>except\<close> branch pushes the error line without the length test that
  follows each line, and the entry ends with 1001 lines, the oldest still there.
  A line in the place of the exception would have left 1000.
\<close>

theorem error_line_overflows_cache:
  "length (redis_client
      (join 1000 0
        (snd (select_pod [''kavosh'', ''secure'', ''bizagi''] 0 ''kavosh'' ''p1''
                (map Line (replicate 1000 ''x'') @ [ApiException ''boom'']) fresh_session)))
      (cache_key ''kavosh'' ''p1'')) = 1000
   \<and> redis_client
      (run_streamer 0
        (snd (select_pod [''kavosh'', ''secure'', ''bizagi''] 0 ''kavosh'' ''p1''
                (map Line (replicate 1000 ''x'') @ [ApiException ''boom'']) fresh_session)))
      (cache_key ''kavosh'' ''p1'') = replicate 1000 ''x'' @ [error_msg ''boom'']
   \<and> length (redis_client
      (run_streamer 0
        (snd (select_pod [''kavosh'', ''secure'', ''bizagi''] 0 ''kavosh'' ''p1''
                (map Line (replicate 1000 ''x'') @ [ApiException ''boom'']) fresh_session)))
      (cache_key ''kavosh'' ''p1'')) = 1001
   \<and> length (redis_client
      (join 1001 0
        (snd (select_pod [''kavosh'', ''secure'', ''bizagi''] 0 ''kavosh'' ''p1''
                (map Line (replicate 1001 ''x'')) fresh_session)))
      (cache_key ''kavosh'' ''p1'')) = 1000"
proof -
  have h: "''kavosh'' \<in> set [''kavosh'', ''secure'', ''bizagi'']" by simp
  have l: "length (replicate 1000 ''x'') = 1000" "length (replicate 1001 ''x'') = 1001"
    by simp_all
  have n: "map Line (replicate 1001 ''x'') = map Line (replicate 1001 ''x'') @ []" by simp
  note a = fresh_worker_cache(1)[OF h, of "replicate 1000 ''x''" 0 "''p1''" "[ApiException ''boom'']",
      unfolded l]
  note b = fresh_worker_cache(2)[OF h, of 0 "''p1''" "replicate 1000 ''x''" "''boom''", unfolded l]
  note c = fresh_worker_cache(1)[OF h, of "replicate 1001 ''x''" 0 "''p1''" "[]",
      unfolded l, folded n]
  show ?thesis
    unfolding a b c by simp
qed

section \<open>The reconnecting worker of \<^verbatim>\<open>appv2.py\<close>\<close>

lemma split_first_space_none:
  "CHR '' '' \<notin> set line \<Longrightarrow> split_first_space line = [line]"
  by (simp add: split_first_space_def)

lemma split_first_space_some:
  assumes "CHR '' '' \<in> set line"
  shows "\<exists>ts msg. split_first_space line = [ts, msg] \<and> line = ts @ CHR '' '' # msg
           \<and> CHR '' '' \<notin> set ts"
proof -
  let ?P = "\<lambda>c. c \<noteq> CHR '' ''"
  let ?ts = "takeWhile ?P line" and ?d = "dropWhile ?P line"
  have ne: "?d \<noteq> []" using assms by (simp add: dropWhile_eq_Nil_conv)
  then have "\<not> ?P (hd ?d)" by (rule hd_dropWhile)
  then have d: "?d = CHR '' '' # tl ?d" using ne by (cases ?d) simp_all
  have "line = ?ts @ ?d" by simp
  then have "line = ?ts @ CHR '' '' # tl ?d" using d by metis
  moreover have "CHR '' '' \<notin> set ?ts" by (auto dest: set_takeWhileD)
  moreover have "split_first_space line = [?ts, tl ?d]"
    using assms by (simp add: split_first_space_def)
  ultimately show ?thesis by blast
qed

lemma parse_line_none:
  "CHR '' '' \<notin> set line \<Longrightarrow> parse_line line lt = (lt, line)"
  by (simp add: parse_line_def split_first_space_none)

lemma parse_line_some:
  assumes "CHR '' '' \<in> set line"
  shows "\<exists>ts msg. parse_line line lt = (Some ts, msg) \<and> line = ts @ CHR '' '' # msg
           \<and> CHR '' '' \<notin> set ts"
  using split_first_space_some[OF assms] by (auto simp: parse_line_def)

lemma streamer_step_v2_line:
  assumes "is_alive_v2 st tid" "\<not> stop_event st"
    "v_stream (threads st ! tid) = Some (Line line # rest)"
  shows "streamer_step_v2 tid st =
     st\<lparr>log_queue := log_queue st @ [snd (parse_line line (v_last_timestamp (threads st ! tid)))],
        redis_client := cache_line (cache_key (v_namespace (threads st ! tid)) (v_pod_name (threads st ! tid)))
                          (snd (parse_line line (v_last_timestamp (threads st ! tid)))) (redis_client st),
        threads := (threads st)[tid := (threads st ! tid)
           \<lparr>v_stream := Some rest,
            v_last_timestamp := fst (parse_line line (v_last_timestamp (threads st ! tid)))\<rparr>]\<rparr>"
  using assms by (simp add: streamer_step_v2_def put_def Let_def split: prod.splits)

text \<open>
  Claim C7, as the code has it. The worker of \<^verbatim>\<open>appv2.py\<close> cuts a line at its first
  space, whatever stands before it: a line with no space goes to the queue whole (and
  \<^verbatim>\<open>last_timestamp\<close> stays); of a line with a space, what follows the first space goes to
  the queue and what precedes it becomes \<^verbatim>\<open>last_timestamp\<close>. Every line received while
  the stop event is clear puts exactly one item on the queue.
\<close>

theorem parse_line_cuts_at_first_space:
  "(CHR '' '' \<notin> set line \<longrightarrow> parse_line line lt = (lt, line))
   \<and> (CHR '' '' \<in> set line \<longrightarrow>
        (\<exists>ts msg. parse_line line lt = (Some ts, msg) \<and> line = ts @ CHR '' '' # msg
            \<and> CHR '' '' \<notin> set ts))
   \<and> (is_alive_v2 st tid \<and> \<not> stop_event st
        \<and> v_stream (threads st ! tid) = Some (Line line # rest) \<longrightarrow>
        log_queue (streamer_step_v2 tid st)
          = log_queue st @ [snd (parse_line line (v_last_timestamp (threads st ! tid)))])"
  using parse_line_none[of line lt] parse_line_some[of line lt]
    streamer_step_v2_line[of st tid line rest]
  by simp


lemma select_pod_v2_fresh_globals:
  assumes "namespace \<in> set ALLOWED_NAMESPACES_v2"
  shows "snd (select_pod_v2 n namespace pname follow fresh_globals) =
     \<lparr>current_pod = Some \<lparr>pod_name = pname, pod_namespace = namespace\<rparr>,
      log_queue = [], stop_event = False, stream_thread = Some 0,
      redis_client = (\<lambda>key. []),
      threads = [\<lparr>v_pod_name = pname, v_namespace = namespace, v_follow = follow,
                  v_attempt = 0, v_stream = None, v_last_timestamp = None, v_alive = True\<rparr>]\<rparr>"
proof -
  have f: "(\<lambda>key. [])(cache_key namespace pname := []) = (\<lambda>key. ([]::string list))"
    by auto
  show ?thesis
    using assms
    by (simp add: select_pod_v2_def start_log_streaming_v2_def stop_log_streaming_v2_def
        fresh_globals_def clear_queue_def redis_delete_def Let_def f)
qed

lemma kavosh_allowed_v2: "''kavosh'' \<in> set ALLOWED_NAMESPACES_v2"
  by (simp add: ALLOWED_NAMESPACES_v2_def)

lemma parse_line_examples:
  "parse_line ''plain'' None = (None, ''plain'')"
  "parse_line ''2024-01-01T00:00:00Z hello'' None = (Some ''2024-01-01T00:00:00Z'', ''hello'')"
  "parse_line ''hello world'' None = (Some ''hello'', ''world'')"
  by (simp_all add: parse_line_def split_first_space_def)

lemma appv2_first_line:
  "(streamer_step_v2 0 ^^ 2) (snd (select_pod_v2 n ''kavosh'' ''p1'' (follow_once [line]) fresh_globals))
     = \<lparr>current_pod = Some \<lparr>pod_name = ''p1'', pod_namespace = ''kavosh''\<rparr>,
        log_queue = [snd (parse_line line None)], stop_event = False, stream_thread = Some 0,
        redis_client = cache_line (cache_key ''kavosh'' ''p1'') (snd (parse_line line None)) (\<lambda>key. []),
        threads = [\<lparr>v_pod_name = ''p1'', v_namespace = ''kavosh'', v_follow = follow_once [line],
                    v_attempt = 1, v_stream = Some [], v_last_timestamp = fst (parse_line line None),
                    v_alive = True\<rparr>]\<rparr>"
  unfolding select_pod_v2_fresh_globals[OF kavosh_allowed_v2]
  by (simp add: numeral_2_eq_2 streamer_step_v2_def is_alive_v2_def follow_once_def put_def
      Let_def split: prod.splits)

lemma appv2_connected:
  "streamer_step_v2 0 (snd (select_pod_v2 n ''kavosh'' ''p1'' (follow_once ls) fresh_globals))
     = \<lparr>current_pod = Some \<lparr>pod_name = ''p1'', pod_namespace = ''kavosh''\<rparr>,
        log_queue = [], stop_event = False, stream_thread = Some 0,
        redis_client = (\<lambda>key. []),
        threads = [\<lparr>v_pod_name = ''p1'', v_namespace = ''kavosh'', v_follow = follow_once ls,
                    v_attempt = 1, v_stream = Some (map Line ls), v_last_timestamp = None,
                    v_alive = True\<rparr>]\<rparr>"
  unfolding select_pod_v2_fresh_globals[OF kavosh_allowed_v2]
  by (simp add: streamer_step_v2_def is_alive_v2_def follow_once_def)

theorem parse_line_cuts_at_first_space_witness:
  "CHR '' '' \<notin> set ''plain'' \<and> parse_line ''plain'' None = (None, ''plain'')
   \<and> CHR '' '' \<in> set ''2024-01-01T00:00:00Z hello''
   \<and> parse_line ''2024-01-01T00:00:00Z hello'' None = (Some ''2024-01-01T00:00:00Z'', ''hello'')
   \<and> is_alive_v2 (streamer_step_v2 0 (snd (select_pod_v2 0 ''kavosh'' ''p1''
          (follow_once [''2024-01-01T00:00:00Z hello'']) fresh_globals))) 0
   \<and> \<not> stop_event (streamer_step_v2 0 (snd (select_pod_v2 0 ''kavosh'' ''p1''
          (follow_once [''2024-01-01T00:00:00Z hello'']) fresh_globals)))
   \<and> v_stream (threads (streamer_step_v2 0 (snd (select_pod_v2 0 ''kavosh'' ''p1''
          (follow_once [''2024-01-01T00:00:00Z hello'']) fresh_globals))) ! 0)
        = Some [Line ''2024-01-01T00:00:00Z hello'']
   \<and> log_queue (streamer_step_v2 0 (streamer_step_v2 0 (snd (select_pod_v2 0 ''kavosh'' ''p1''
          (follow_once [''2024-01-01T00:00:00Z hello'']) fresh_globals)))) = [''hello'']"
proof -
  let ?st = "streamer_step_v2 0 (snd (select_pod_v2 0 ''kavosh'' ''p1''
          (follow_once [''2024-01-01T00:00:00Z hello'']) fresh_globals))"
  have h: "CHR '' '' \<notin> set ''plain''" "CHR '' '' \<in> set ''2024-01-01T00:00:00Z hello''"
    by simp_all
  have g: "is_alive_v2 ?st 0" "\<not> stop_event ?st"
    "v_stream (threads ?st ! 0) = Some (Line ''2024-01-01T00:00:00Z hello'' # [])"
    "log_queue ?st = []" "v_last_timestamp (threads ?st ! 0) = None"
    unfolding appv2_connected by (simp_all add: is_alive_v2_def)
  show ?thesis
    using parse_line_cuts_at_first_space[of "''plain''" None] h g
      parse_line_cuts_at_first_space[of "''2024-01-01T00:00:00Z hello''" None ?st 0 "[]"]
    by (simp add: parse_line_examples)
qed

text \<open>
  The claim as stated fails on a line that carries no timestamp but has a space: of
  \<open>hello world\<close> the worker takes \<open>hello\<close> for the timestamp and forwards \<open>world\<close>.
\<close>

theorem parse_line_strips_first_word:
  "parse_line ''hello world'' None = (Some ''hello'', ''world'')
   \<and> log_queue ((streamer_step_v2 0 ^^ 2)
          (snd (select_pod_v2 0 ''kavosh'' ''p1'' (follow_once [''hello world'']) fresh_globals)))
       = [''world'']
   \<and> ''world'' \<noteq> ''hello world''"
  by (simp add: appv2_first_line parse_line_examples)

section \<open>The current pod after the worker is over\<close>

lemma streamer_step_v2_current_pod:
  "current_pod (streamer_step_v2 tid st) = current_pod st"
  by (simp add: streamer_step_v2_def put_def Let_def
      split: option.splits list.splits upstream.splits prod.splits)

lemma streamer_step_weblog_current_pod:
  "current_pod (streamer_step_weblog tid st) = current_pod st"
  by (simp add: streamer_step_weblog_def streamer_finally_weblog_def put_def Let_def
      split: list.splits upstream.splits)

text \<open>
  Claim C6, on the code. In \<^verbatim>\<open>appv2.py\<close> pod \<open>p1\<close> is selected, its worker forwards one
  line, and \<^verbatim>\<open>stop_log_streaming\<close> stops it: the worker puts the end marker and is over,
  and the module's \<^verbatim>\<open>current_pod\<close> still names \<open>p1\<close>. The same holds in \<^verbatim>\<open>web-log.py\<close>
  when the upstream closes, where a feed that connects afterwards reports that it waits
  for logs, not that no pod is selected. In \<^verbatim>\<open>app.py\<close> the worker writes
  \<^verbatim>\<open>state['current_pod']\<close> and the reference is cleared.
\<close>

theorem worker_exit_keeps_current_pod:
  "log_queue (stop_log_streaming_v2 2 ((streamer_step_v2 0 ^^ 2)
       (snd (select_pod_v2 0 ''kavosh'' ''p1'' (follow_once [''2024-01-01T00:00:00Z hello''])
               fresh_globals)))) = [''hello'', END_MARKER]
   \<and> \<not> is_alive_v2 (stop_log_streaming_v2 2 ((streamer_step_v2 0 ^^ 2)
       (snd (select_pod_v2 0 ''kavosh'' ''p1'' (follow_once [''2024-01-01T00:00:00Z hello''])
               fresh_globals)))) 0
   \<and> current_pod (stop_log_streaming_v2 2 ((streamer_step_v2 0 ^^ 2)
       (snd (select_pod_v2 0 ''kavosh'' ''p1'' (follow_once [''2024-01-01T00:00:00Z hello''])
               fresh_globals)))) = Some \<lparr>pod_name = ''p1'', pod_namespace = ''kavosh''\<rparr>
   \<and> log_queue ((streamer_step_weblog 0 ^^ 2)
       (snd (select_pod_weblog 0 ''kavosh'' ''p1'' [Line ''hello''] fresh_session)))
       = [''hello'', END_MARKER]
   \<and> \<not> is_alive ((streamer_step_weblog 0 ^^ 2)
       (snd (select_pod_weblog 0 ''kavosh'' ''p1'' [Line ''hello''] fresh_session))) 0
   \<and> current_pod ((streamer_step_weblog 0 ^^ 2)
       (snd (select_pod_weblog 0 ''kavosh'' ''p1'' [Line ''hello''] fresh_session)))
       = Some \<lparr>pod_name = ''p1'', pod_namespace = ''kavosh''\<rparr>
   \<and> fst (generate weblog_feed 0 [(1, 1), (2, 2)] ((streamer_step_weblog 0 ^^ 2)
       (snd (select_pod_weblog 0 ''kavosh'' ''p1'' [Line ''hello''] fresh_session))))
       = [(Connected, 0), (LogEvent ''hello'' None, 1), (StreamEnded, 1)]
   \<and> fst (generate weblog_feed 5 [(6, 6)]
       (snd (generate weblog_feed 0 [(1, 1), (2, 2)] ((streamer_step_weblog 0 ^^ 2)
          (snd (select_pod_weblog 0 ''kavosh'' ''p1'' [Line ''hello''] fresh_session))))))
       = [(Connected, 5), (Waiting, 6)]
   \<and> current_pod (run_streamer 0
       (snd (select_pod [''kavosh'', ''secure'', ''bizagi''] 0 ''kavosh'' ''p1'' [Line ''hello'']
               fresh_session))) = None"
proof -
  have h: "''kavosh'' \<in> set [''kavosh'', ''secure'', ''bizagi'']" by simp
  let ?v2 = "stop_log_streaming_v2 2 ((streamer_step_v2 0 ^^ 2)
       (snd (select_pod_v2 0 ''kavosh'' ''p1'' (follow_once [''2024-01-01T00:00:00Z hello''])
               fresh_globals)))"
  have v2: "log_queue ?v2 = [''hello'', END_MARKER]" "\<not> is_alive_v2 ?v2 0"
    "current_pod ?v2 = Some \<lparr>pod_name = ''p1'', pod_namespace = ''kavosh''\<rparr>"
    unfolding appv2_first_line
    by (simp_all add: stop_log_streaming_v2_def is_alive_v2_def numeral_2_eq_2
        streamer_step_v2_def put_def parse_line_examples Let_def)
  let ?w = "(streamer_step_weblog 0 ^^ 2)
       (snd (select_pod_weblog 0 ''kavosh'' ''p1'' [Line ''hello''] fresh_session))"
  have w: "?w = \<lparr>current_pod = Some \<lparr>pod_name = ''p1'', pod_namespace = ''kavosh''\<rparr>,
        log_queue = [''hello'', END_MARKER], stop_event = False, stream_thread = Some 0,
        redis_client = (\<lambda>key. []),
        threads = [\<lparr>t_pod_name = ''p1'', t_namespace = ''kavosh'', t_stream = [],
                    t_alive = False\<rparr>]\<rparr>"
    by (simp add: select_pod_weblog_def start_log_streaming_weblog_def
        stop_log_streaming_weblog_def fresh_session_def clear_queue_def Let_def numeral_2_eq_2
        streamer_step_weblog_def streamer_finally_weblog_def is_alive_def put_def)
  have g1: "generate weblog_feed 0 [(1, 1), (2, 2)] ?w =
       ([(Connected, 0), (LogEvent ''hello'' None, 1), (StreamEnded, 1)], ?w\<lparr>log_queue := []\<rparr>)"
    unfolding w by (simp add: generate_def generate_iter_def weblog_feed_def END_MARKER_def)
  have g2: "fst (generate weblog_feed 5 [(6, 6)] (?w\<lparr>log_queue := []\<rparr>))
       = [(Connected, 5), (Waiting, 6)]"
    unfolding w by (simp add: generate_def generate_iter_def weblog_feed_def)
  have a: "current_pod (run_streamer 0
       (snd (select_pod [''kavosh'', ''secure'', ''bizagi''] 0 ''kavosh'' ''p1'' [Line ''hello'']
               fresh_session))) = None"
    by (rule run_streamer_normal_end(3)[where ls = "[''hello'']"])
       (simp_all add: select_pod_fresh_session[OF h] is_alive_def)
  show ?thesis
    using v2 a g2 unfolding g1 by (simp add: w is_alive_def)
qed

section \<open>The idle feed\<close>

lemma heartbeats_spaced_mono:
  "heartbeats_spaced gap t frames \<Longrightarrow> gap' \<le> gap \<Longrightarrow> heartbeats_spaced gap' t frames"
  by (induction frames arbitrary: t) auto

lemma heartbeats_spaced_no_waiting:
  "heartbeats_spaced gap t frames \<Longrightarrow> filter (\<lambda>f. fst f = Waiting) frames = []"
  by (induction frames arbitrary: t) auto

lemma generate_iter_idle:
  assumes "idle_feed st" "has_yielded_waiting a"
  shows "generate_iter v tick a st =
     (if heartbeat_after v < fst tick - last_yield_time a
      then ([(Heartbeat, fst tick)], Some (a\<lparr>last_yield_time := fst tick\<rparr>), st)
      else ([], Some a, st))"
  using assms by (auto simp: generate_iter_def idle_feed_def)

lemma generate_loop_idle:
  assumes "idle_feed st" "has_yielded_waiting a"
  shows "snd (generate_loop v ticks a st) = st
       \<and> heartbeats_spaced (heartbeat_after v) (last_yield_time a) (fst (generate_loop v ticks a st))"
  using assms(2)
proof (induction ticks arbitrary: a)
  case Nil
  then show ?case by simp
next
  case (Cons tick ticks)
  show ?case
  proof (cases "heartbeat_after v < fst tick - last_yield_time a")
    case True
    let ?a = "a\<lparr>last_yield_time := fst tick\<rparr>"
    have w: "has_yielded_waiting ?a" using Cons.prems by simp
    from Cons.IH[OF w] True show ?thesis
      by (simp add: generate_iter_idle[OF assms(1) Cons.prems] case_prod_beta)
  next
    case False
    from Cons.IH[OF Cons.prems] False show ?thesis
      by (simp add: generate_iter_idle[OF assms(1) Cons.prems] case_prod_beta)
  qed
qed

lemma generate_idle:
  assumes "idle_feed st"
  shows "generate v t0 (tick # ticks) st =
           ((Connected, t0) # (Waiting, fst tick)
              # fst (generate_loop v ticks
                       \<lparr>last_yield_time = fst tick, has_yielded_waiting = True\<rparr> st), st)"
proof -
  let ?a = "\<lparr>last_yield_time = fst tick, has_yielded_waiting = True\<rparr>"
  have i: "generate_iter v tick \<lparr>last_yield_time = t0, has_yielded_waiting = False\<rparr> st
             = ([(Waiting, fst tick)], Some ?a, st)"
    using assms by (auto simp: generate_iter_def idle_feed_def)
  have "snd (generate_loop v ticks ?a st) = st"
    using generate_loop_idle[OF assms, of ?a v ticks] by simp
  then show ?thesis
    by (simp add: generate_def i case_prod_beta)
qed

text \<open>
  Claim C8. A feed of any of the three files that stays idle (a pod is selected, the
  queue stays empty, the stop event stays clear) yields, after the connection frame,
  the waiting frame at its first poll and from then on only heartbeats, each more than
  10 time units after the frame before it; the waiting frame is the only one of its
  kind, and the state is left as it was. \<open>t0\<close> and \<open>tick # ticks\<close> are the clock readings.
\<close>

theorem idle_feed_waits_once_then_heartbeats:
  assumes "idle_feed st" "v \<in> {app_feed, appv2_feed, weblog_feed}"
  shows "\<exists>hbs. generate v t0 (tick # ticks) st
                  = ((Connected, t0) # (Waiting, fst tick) # hbs, st)
           \<and> heartbeats_spaced 10 (fst tick) hbs
           \<and> length (filter (\<lambda>f. fst f = Waiting) (fst (generate v t0 (tick # ticks) st))) = 1"
proof -
  let ?a = "\<lparr>last_yield_time = fst tick, has_yielded_waiting = True\<rparr>"
  let ?hbs = "fst (generate_loop v ticks ?a st)"
  have g: "generate v t0 (tick # ticks) st = ((Connected, t0) # (Waiting, fst tick) # ?hbs, st)"
    by (rule generate_idle[OF assms(1)])
  have "heartbeats_spaced (heartbeat_after v) (fst tick) ?hbs"
    using generate_loop_idle[OF assms(1), of ?a v ticks] by simp
  moreover have "10 \<le> heartbeat_after v"
    using assms(2) by (auto simp: app_feed_def appv2_feed_def weblog_feed_def)
  ultimately have s: "heartbeats_spaced 10 (fst tick) ?hbs"
    by (rule heartbeats_spaced_mono)
  have "length (filter (\<lambda>f. fst f = Waiting) (fst (generate v t0 (tick # ticks) st))) = 1"
    by (simp add: g heartbeats_spaced_no_waiting[OF s])
  with g s show ?thesis by blast
qed

lemma idle_after_select:
  "idle_feed (snd (select_pod [''kavosh'', ''secure'', ''bizagi''] 0 ''kavosh'' ''p1'' [] fresh_session))"
  by (simp add: select_pod_fresh_session idle_feed_def)

theorem idle_feed_waits_once_then_heartbeats_witness:
  "idle_feed (snd (select_pod [''kavosh'', ''secure'', ''bizagi''] 0 ''kavosh'' ''p1'' [] fresh_session))
   \<and> app_feed \<in> {app_feed, appv2_feed, weblog_feed}
   \<and> fst (generate app_feed 0 [(1, 1), (5, 5), (12, 12), (20, 20), (23, 23)]
        (snd (select_pod [''kavosh'', ''secure'', ''bizagi''] 0 ''kavosh'' ''p1'' [] fresh_session)))
       = [(Connected, 0), (Waiting, 1), (Heartbeat, 12), (Heartbeat, 23)]
   \<and> length (filter (\<lambda>f. fst f = Waiting)
        (fst (generate app_feed 0 [(1, 1), (5, 5), (12, 12), (20, 20), (23, 23)]
           (snd (select_pod [''kavosh'', ''secure'', ''bizagi''] 0 ''kavosh'' ''p1'' []
                   fresh_session))))) = 1"
proof -
  let ?st = "snd (select_pod [''kavosh'', ''secure'', ''bizagi''] 0 ''kavosh'' ''p1'' [] fresh_session)"
  have v: "app_feed \<in> {app_feed, appv2_feed, weblog_feed}" by simp
  have e: "fst (generate app_feed 0 [(1, 1), (5, 5), (12, 12), (20, 20), (23, 23)] ?st)
       = [(Connected, 0), (Waiting, 1), (Heartbeat, 12), (Heartbeat, 23)]"
    by (simp add: generate_idle[OF idle_after_select]
        generate_iter_idle[OF idle_after_select] app_feed_def)
  show ?thesis
    using idle_feed_waits_once_then_heartbeats[OF idle_after_select v, of 0 "(1, 1)"
        "[(5, 5), (12, 12), (20, 20), (23, 23)]"] idle_after_select e
    by simp
qed

section \<open>What one worker puts on the queue\<close>

lemma snd_parse_line: "snd (parse_line line lt) = snd (parse_line line None)"
  by (simp add: parse_line_def split: list.splits)

lemma streamer_step_v2_dead: "\<not> is_alive_v2 st tid \<Longrightarrow> streamer_step_v2 tid st = st"
  by (simp add: streamer_step_v2_def)

lemma streamer_step_v2_closed:
  assumes "is_alive_v2 st tid" "v_stream (threads st ! tid) = Some []"
  shows "streamer_step_v2 tid st =
     st\<lparr>threads := (threads st)[tid := (threads st ! tid)\<lparr>v_stream := None\<rparr>]\<rparr>"
  using assms by (simp add: streamer_step_v2_def Let_def)

lemma streamer_step_v2_error:
  assumes "is_alive_v2 st tid" "v_stream (threads st ! tid) = Some (ApiException e # rest)"
  shows "streamer_step_v2 tid st =
     st\<lparr>log_queue := log_queue st @ [error_msg e],
        redis_client := redis_rpush (redis_client st)
           (cache_key (v_namespace (threads st ! tid)) (v_pod_name (threads st ! tid))) (error_msg e),
        threads := (threads st)[tid := (threads st ! tid)\<lparr>v_stream := None\<rparr>]\<rparr>"
  using assms by (simp add: streamer_step_v2_def put_def Let_def)

lemma streamer_step_v2_connect:
  assumes "is_alive_v2 st tid" "\<not> stop_event st" "v_stream (threads st ! tid) = None"
  shows "streamer_step_v2 tid st =
     st\<lparr>threads := (threads st)[tid := (threads st ! tid)
           \<lparr>v_stream := Some (v_follow (threads st ! tid) (v_attempt (threads st ! tid))
                                (follow_request (v_last_timestamp (threads st ! tid)))),
            v_attempt := Suc (v_attempt (threads st ! tid))\<rparr>]\<rparr>"
  using assms by (simp add: streamer_step_v2_def Let_def)

lemma streamer_step_v2_exit:
  assumes "is_alive_v2 st tid" "stop_event st" "v_stream (threads st ! tid) = None"
  shows "streamer_step_v2 tid st =
     st\<lparr>log_queue := log_queue st @ [END_MARKER],
        threads := (threads st)[tid := (threads st ! tid)\<lparr>v_alive := False\<rparr>]\<rparr>"
  using assms by (simp add: streamer_step_v2_def put_def Let_def)

lemma streamer_step_v2_break:
  assumes "is_alive_v2 st tid" "stop_event st"
    "v_stream (threads st ! tid) = Some (Line line # rest)"
  shows "streamer_step_v2 tid st =
     st\<lparr>threads := (threads st)[tid := (threads st ! tid)\<lparr>v_stream := None\<rparr>]\<rparr>"
  using assms by (simp add: streamer_step_v2_def Let_def)

lemma streamer_step_v2_other_exception:
  assumes "is_alive_v2 st tid" "v_stream (threads st ! tid) = Some (OtherException e # rest)"
  shows "streamer_step_v2 tid st =
     st\<lparr>threads := (threads st)[tid := (threads st ! tid)\<lparr>v_alive := False\<rparr>]\<rparr>"
  using assms by (simp add: streamer_step_v2_def Let_def)

lemma streamer_v2_steps_lines:
  assumes "is_alive_v2 st tid" "\<not> stop_event st"
    "v_stream (threads st ! tid) = Some (map Line ls @ rest)"
  shows "\<exists>lt r. (streamer_step_v2 tid ^^ length ls) st =
     st\<lparr>log_queue := log_queue st @ map (\<lambda>l. snd (parse_line l None)) ls,
        redis_client := r,
        threads := (threads st)[tid := (threads st ! tid)
                      \<lparr>v_stream := Some rest, v_last_timestamp := lt\<rparr>]\<rparr>"
  using assms
proof (induction ls arbitrary: st)
  case Nil
  have "st = st\<lparr>log_queue := log_queue st @ map (\<lambda>l. snd (parse_line l None)) [],
        redis_client := redis_client st,
        threads := (threads st)[tid := (threads st ! tid)
                      \<lparr>v_stream := Some rest, v_last_timestamp := v_last_timestamp (threads st ! tid)\<rparr>]\<rparr>"
    using Nil.prems(3)[symmetric] by simp
  then show ?case by (simp only: list.size funpow_0) blast
next
  case (Cons l ls)
  let ?st1 = "streamer_step_v2 tid st"
  have s1: "?st1 = st\<lparr>log_queue := log_queue st @ [snd (parse_line l (v_last_timestamp (threads st ! tid)))],
        redis_client := cache_line (cache_key (v_namespace (threads st ! tid)) (v_pod_name (threads st ! tid)))
                          (snd (parse_line l (v_last_timestamp (threads st ! tid)))) (redis_client st),
        threads := (threads st)[tid := (threads st ! tid)
           \<lparr>v_stream := Some (map Line ls @ rest),
            v_last_timestamp := fst (parse_line l (v_last_timestamp (threads st ! tid)))\<rparr>]\<rparr>"
    using Cons.prems by (simp add: streamer_step_v2_line)
  have a: "is_alive_v2 ?st1 tid" "\<not> stop_event ?st1"
    "v_stream (threads ?st1 ! tid) = Some (map Line ls @ rest)"
    using Cons.prems by (simp_all add: s1 is_alive_v2_def)
  from Cons.IH[OF a] obtain lt r where
    ih: "(streamer_step_v2 tid ^^ length ls) ?st1 =
       ?st1\<lparr>log_queue := log_queue ?st1 @ map (\<lambda>l. snd (parse_line l None)) ls,
        redis_client := r,
        threads := (threads ?st1)[tid := (threads ?st1 ! tid)
                      \<lparr>v_stream := Some rest, v_last_timestamp := lt\<rparr>]\<rparr>"
    by blast
  have "(streamer_step_v2 tid ^^ length (l # ls)) st = (streamer_step_v2 tid ^^ length ls) ?st1"
    by (simp add: funpow_swap1)
  also have "\<dots> = st\<lparr>log_queue := log_queue st @ map (\<lambda>l. snd (parse_line l None)) (l # ls),
        redis_client := r,
        threads := (threads st)[tid := (threads st ! tid)
                      \<lparr>v_stream := Some rest, v_last_timestamp := lt\<rparr>]\<rparr>"
    unfolding ih using Cons.prems(1)
    by (simp add: s1 is_alive_v2_def snd_parse_line[of l "v_last_timestamp (threads st ! tid)"])
  finally show ?case by blast
qed

lemma streamer_v2_lines_queue:
  assumes "is_alive_v2 st tid" "\<not> stop_event st"
    "v_stream (threads st ! tid) = Some (map Line ls @ rest)"
  shows "log_queue ((streamer_step_v2 tid ^^ length ls) st)
           = log_queue st @ map (\<lambda>l. snd (parse_line l None)) ls"
  using streamer_v2_steps_lines[OF assms] by auto

lemma streamer_v2_stopped:
  assumes "is_alive_v2 st tid" "\<not> stop_event st"
    "v_stream (threads st ! tid) = Some (map Line ls @ Line l # rest)"
  shows "log_queue ((streamer_step_v2 tid ^^ 2)
            (((streamer_step_v2 tid ^^ length ls) st)\<lparr>stop_event := True\<rparr>))
           = log_queue st @ map (\<lambda>l. snd (parse_line l None)) ls @ [END_MARKER]"
    and "\<not> is_alive_v2 ((streamer_step_v2 tid ^^ 2)
            (((streamer_step_v2 tid ^^ length ls) st)\<lparr>stop_event := True\<rparr>)) tid"
proof -
  from streamer_v2_steps_lines[OF assms] obtain lt r where
    m: "(streamer_step_v2 tid ^^ length ls) st =
     st\<lparr>log_queue := log_queue st @ map (\<lambda>l. snd (parse_line l None)) ls,
        redis_client := r,
        threads := (threads st)[tid := (threads st ! tid)
                      \<lparr>v_stream := Some (Line l # rest), v_last_timestamp := lt\<rparr>]\<rparr>"
    by blast
  show "log_queue ((streamer_step_v2 tid ^^ 2)
            (((streamer_step_v2 tid ^^ length ls) st)\<lparr>stop_event := True\<rparr>))
           = log_queue st @ map (\<lambda>l. snd (parse_line l None)) ls @ [END_MARKER]"
    unfolding m using assms(1)
    by (simp add: numeral_2_eq_2 streamer_step_v2_def is_alive_v2_def put_def)
  show "\<not> is_alive_v2 ((streamer_step_v2 tid ^^ 2)
            (((streamer_step_v2 tid ^^ length ls) st)\<lparr>stop_event := True\<rparr>)) tid"
    unfolding m using assms(1)
    by (simp add: numeral_2_eq_2 streamer_step_v2_def is_alive_v2_def put_def)
qed


lemma streamer_step_v2_goes_on:
  assumes "is_alive_v2 st tid" "v_stream (threads st ! tid) = None \<longrightarrow> \<not> stop_event st"
    "\<forall>e more. v_stream (threads st ! tid) \<noteq> Some (OtherException e # more)"
  shows "is_alive_v2 (streamer_step_v2 tid st) tid"
  using assms
  by (simp add: streamer_step_v2_def is_alive_v2_def put_def Let_def
      split: option.splits list.splits upstream.splits prod.splits)

text \<open>
  Claim C3, as the code has it. The worker of \<^verbatim>\<open>app.py\<close>, started on an upstream that
  delivers the lines \<open>ls\<close>: when the upstream then closes, or raises an exception
  that is not an \<^verbatim>\<open>ApiException\<close>, it has put \<open>ls\<close> and the end marker; when the upstream
  then raises an \<^verbatim>\<open>ApiException\<close>, it has put \<open>ls\<close>, the error line and the end marker;
  when the stop event is set after \<open>ls\<close>, it drops the next line and has put \<open>ls\<close> and
  the end marker. In each case the thread is over, and a thread that is over puts
  nothing more.

  The worker of \<^verbatim>\<open>appv2.py\<close> puts, for the lines \<open>ls\<close>, what \<^verbatim>\<open>parse_line\<close> makes of them;
  with the stop event set after \<open>ls\<close> it leaves the connection at the next line, puts
  the end marker and is over. Each of its steps is pinned: when the connection closes
  it puts nothing and is back at the head of its loop; on an \<^verbatim>\<open>ApiException\<close> it puts
  the error line (also in the cache) and is back at the head of its loop; at the head
  of the loop with the stop event clear it puts nothing and opens the next follow
  connection; at the head of the loop with the stop event set it puts the end marker
  and is over; on a line with the stop event set it puts nothing and is back at the
  head of the loop; on an exception of another type it is over, having put nothing.
  So it stays running, and puts no end marker, unless it finds the stop event set at
  the head of its loop or meets an exception it does not catch; a thread that is over
  puts nothing more.
\<close>

theorem worker_queue_output:
  "(is_alive st tid \<and> \<not> stop_event st \<and> t_stream (threads st ! tid) = map Line ls @ rest \<longrightarrow>
       (rest = [] \<longrightarrow>
          log_queue (run_streamer tid st) = log_queue st @ ls @ [END_MARKER]
          \<and> \<not> is_alive (run_streamer tid st) tid)
     \<and> (\<forall>e more. rest = ApiException e # more \<longrightarrow>
          log_queue (run_streamer tid st) = log_queue st @ ls @ [error_msg e, END_MARKER]
          \<and> \<not> is_alive (run_streamer tid st) tid)
     \<and> (\<forall>e more. rest = OtherException e # more \<longrightarrow>
          log_queue (run_streamer tid st) = log_queue st @ ls @ [END_MARKER]
          \<and> \<not> is_alive (run_streamer tid st) tid)
     \<and> (\<forall>l more. rest = Line l # more \<longrightarrow>
          log_queue (run_streamer tid ((join (length ls) tid st)\<lparr>stop_event := True\<rparr>))
            = log_queue st @ ls @ [END_MARKER]
          \<and> \<not> is_alive (run_streamer tid ((join (length ls) tid st)\<lparr>stop_event := True\<rparr>)) tid))
   \<and> (\<not> is_alive st tid \<longrightarrow> streamer_step tid st = st)
   \<and> (is_alive_v2 sv tid \<and> \<not> stop_event sv
        \<and> v_stream (threads sv ! tid) = Some (map Line ls @ rest) \<longrightarrow>
       log_queue ((streamer_step_v2 tid ^^ length ls) sv)
         = log_queue sv @ map (\<lambda>l. snd (parse_line l None)) ls
     \<and> (\<forall>l more. rest = Line l # more \<longrightarrow>
          log_queue ((streamer_step_v2 tid ^^ 2)
              (((streamer_step_v2 tid ^^ length ls) sv)\<lparr>stop_event := True\<rparr>))
            = log_queue sv @ map (\<lambda>l. snd (parse_line l None)) ls @ [END_MARKER]
          \<and> \<not> is_alive_v2 ((streamer_step_v2 tid ^^ 2)
              (((streamer_step_v2 tid ^^ length ls) sv)\<lparr>stop_event := True\<rparr>)) tid))
   \<and> (is_alive_v2 sv tid \<and> v_stream (threads sv ! tid) = Some [] \<longrightarrow>
        streamer_step_v2 tid sv
          = sv\<lparr>threads := (threads sv)[tid := (threads sv ! tid)\<lparr>v_stream := None\<rparr>]\<rparr>)
   \<and> (\<forall>e more. is_alive_v2 sv tid
          \<and> v_stream (threads sv ! tid) = Some (ApiException e # more) \<longrightarrow>
        streamer_step_v2 tid sv
          = sv\<lparr>log_queue := log_queue sv @ [error_msg e],
               redis_client := redis_rpush (redis_client sv)
                  (cache_key (v_namespace (threads sv ! tid)) (v_pod_name (threads sv ! tid)))
                  (error_msg e),
               threads := (threads sv)[tid := (threads sv ! tid)\<lparr>v_stream := None\<rparr>]\<rparr>)
   \<and> (is_alive_v2 sv tid \<and> \<not> stop_event sv \<and> v_stream (threads sv ! tid) = None \<longrightarrow>
        streamer_step_v2 tid sv
          = sv\<lparr>threads := (threads sv)[tid := (threads sv ! tid)
                \<lparr>v_stream := Some (v_follow (threads sv ! tid) (v_attempt (threads sv ! tid))
                                     (follow_request (v_last_timestamp (threads sv ! tid)))),
                 v_attempt := Suc (v_attempt (threads sv ! tid))\<rparr>]\<rparr>)
   \<and> (is_alive_v2 sv tid \<and> stop_event sv \<and> v_stream (threads sv ! tid) = None \<longrightarrow>
        streamer_step_v2 tid sv
          = sv\<lparr>log_queue := log_queue sv @ [END_MARKER],
               threads := (threads sv)[tid := (threads sv ! tid)\<lparr>v_alive := False\<rparr>]\<rparr>)
   \<and> (\<forall>l more. is_alive_v2 sv tid \<and> stop_event sv
          \<and> v_stream (threads sv ! tid) = Some (Line l # more) \<longrightarrow>
        streamer_step_v2 tid sv
          = sv\<lparr>threads := (threads sv)[tid := (threads sv ! tid)\<lparr>v_stream := None\<rparr>]\<rparr>)
   \<and> (\<forall>e more. is_alive_v2 sv tid
          \<and> v_stream (threads sv ! tid) = Some (OtherException e # more) \<longrightarrow>
        streamer_step_v2 tid sv
          = sv\<lparr>threads := (threads sv)[tid := (threads sv ! tid)\<lparr>v_alive := False\<rparr>]\<rparr>)
   \<and> (is_alive_v2 sv tid \<and> (v_stream (threads sv ! tid) = None \<longrightarrow> \<not> stop_event sv)
        \<and> (\<forall>e more. v_stream (threads sv ! tid) \<noteq> Some (OtherException e # more)) \<longrightarrow>
        is_alive_v2 (streamer_step_v2 tid sv) tid)
   \<and> (\<not> is_alive_v2 sv tid \<longrightarrow> streamer_step_v2 tid sv = sv)"
proof -
  have a: "log_queue (run_streamer tid st) = log_queue st @ ls @ [END_MARKER]
          \<and> \<not> is_alive (run_streamer tid st) tid"
    if "is_alive st tid" "\<not> stop_event st" "t_stream (threads st ! tid) = map Line ls @ rest"
      "rest = []"
    using run_streamer_normal_end(1,2)[of st tid ls] that by simp
  have b: "log_queue (run_streamer tid st) = log_queue st @ ls @ [error_msg e, END_MARKER]
          \<and> \<not> is_alive (run_streamer tid st) tid"
    if "is_alive st tid" "\<not> stop_event st" "t_stream (threads st ! tid) = map Line ls @ rest"
      "rest = ApiException e # more" for e more
    using run_streamer_error(1,2)[of st tid ls e more] that by simp
  have b': "log_queue (run_streamer tid st) = log_queue st @ ls @ [END_MARKER]
          \<and> \<not> is_alive (run_streamer tid st) tid"
    if "is_alive st tid" "\<not> stop_event st" "t_stream (threads st ! tid) = map Line ls @ rest"
      "rest = OtherException e # more" for e more
    using run_streamer_other_exception[of st tid ls e more] that by simp
  have c: "log_queue (run_streamer tid ((join (length ls) tid st)\<lparr>stop_event := True\<rparr>))
            = log_queue st @ ls @ [END_MARKER]
          \<and> \<not> is_alive (run_streamer tid ((join (length ls) tid st)\<lparr>stop_event := True\<rparr>)) tid"
    if "is_alive st tid" "\<not> stop_event st" "t_stream (threads st ! tid) = map Line ls @ rest"
      "rest = Line l # more" for l more
    using run_streamer_stopped(1,2)[of st tid ls l more] that by simp
  have d: "log_queue ((streamer_step_v2 tid ^^ length ls) sv)
         = log_queue sv @ map (\<lambda>l. snd (parse_line l None)) ls"
    if "is_alive_v2 sv tid" "\<not> stop_event sv"
      "v_stream (threads sv ! tid) = Some (map Line ls @ rest)"
    using that by (rule streamer_v2_lines_queue)
  have e: "log_queue ((streamer_step_v2 tid ^^ 2)
              (((streamer_step_v2 tid ^^ length ls) sv)\<lparr>stop_event := True\<rparr>))
            = log_queue sv @ map (\<lambda>l. snd (parse_line l None)) ls @ [END_MARKER]
          \<and> \<not> is_alive_v2 ((streamer_step_v2 tid ^^ 2)
              (((streamer_step_v2 tid ^^ length ls) sv)\<lparr>stop_event := True\<rparr>)) tid"
    if "is_alive_v2 sv tid" "\<not> stop_event sv"
      "v_stream (threads sv ! tid) = Some (map Line ls @ rest)" "rest = Line l # more" for l more
    using streamer_v2_stopped[of sv tid ls l more] that by simp
  have app: "(is_alive st tid \<and> \<not> stop_event st \<and> t_stream (threads st ! tid) = map Line ls @ rest \<longrightarrow>
       (rest = [] \<longrightarrow>
          log_queue (run_streamer tid st) = log_queue st @ ls @ [END_MARKER]
          \<and> \<not> is_alive (run_streamer tid st) tid)
     \<and> (\<forall>e more. rest = ApiException e # more \<longrightarrow>
          log_queue (run_streamer tid st) = log_queue st @ ls @ [error_msg e, END_MARKER]
          \<and> \<not> is_alive (run_streamer tid st) tid)
     \<and> (\<forall>e more. rest = OtherException e # more \<longrightarrow>
          log_queue (run_streamer tid st) = log_queue st @ ls @ [END_MARKER]
          \<and> \<not> is_alive (run_streamer tid st) tid)
     \<and> (\<forall>l more. rest = Line l # more \<longrightarrow>
          log_queue (run_streamer tid ((join (length ls) tid st)\<lparr>stop_event := True\<rparr>))
            = log_queue st @ ls @ [END_MARKER]
          \<and> \<not> is_alive (run_streamer tid ((join (length ls) tid st)\<lparr>stop_event := True\<rparr>)) tid))"
    using a b b' c by blast
  have v2: "is_alive_v2 sv tid \<and> \<not> stop_event sv
        \<and> v_stream (threads sv ! tid) = Some (map Line ls @ rest) \<longrightarrow>
       log_queue ((streamer_step_v2 tid ^^ length ls) sv)
         = log_queue sv @ map (\<lambda>l. snd (parse_line l None)) ls
     \<and> (\<forall>l more. rest = Line l # more \<longrightarrow>
          log_queue ((streamer_step_v2 tid ^^ 2)
              (((streamer_step_v2 tid ^^ length ls) sv)\<lparr>stop_event := True\<rparr>))
            = log_queue sv @ map (\<lambda>l. snd (parse_line l None)) ls @ [END_MARKER]
          \<and> \<not> is_alive_v2 ((streamer_step_v2 tid ^^ 2)
              (((streamer_step_v2 tid ^^ length ls) sv)\<lparr>stop_event := True\<rparr>)) tid)"
    using d e by blast
  have k1: "\<not> is_alive st tid \<longrightarrow> streamer_step tid st = st"
    by (simp add: streamer_step_dead)
  have k2: "is_alive_v2 sv tid \<and> v_stream (threads sv ! tid) = Some [] \<longrightarrow>
        streamer_step_v2 tid sv
          = sv\<lparr>threads := (threads sv)[tid := (threads sv ! tid)\<lparr>v_stream := None\<rparr>]\<rparr>"
    by (intro impI, elim conjE) (rule streamer_step_v2_closed)
  have k3: "\<forall>e more. is_alive_v2 sv tid
          \<and> v_stream (threads sv ! tid) = Some (ApiException e # more) \<longrightarrow>
        streamer_step_v2 tid sv
          = sv\<lparr>log_queue := log_queue sv @ [error_msg e],
               redis_client := redis_rpush (redis_client sv)
                  (cache_key (v_namespace (threads sv ! tid)) (v_pod_name (threads sv ! tid)))
                  (error_msg e),
               threads := (threads sv)[tid := (threads sv ! tid)\<lparr>v_stream := None\<rparr>]\<rparr>"
    by (intro allI impI, elim conjE) (rule streamer_step_v2_error)
  have k4: "is_alive_v2 sv tid \<and> \<not> stop_event sv \<and> v_stream (threads sv ! tid) = None \<longrightarrow>
        streamer_step_v2 tid sv
          = sv\<lparr>threads := (threads sv)[tid := (threads sv ! tid)
                \<lparr>v_stream := Some (v_follow (threads sv ! tid) (v_attempt (threads sv ! tid))
                                     (follow_request (v_last_timestamp (threads sv ! tid)))),
                 v_attempt := Suc (v_attempt (threads sv ! tid))\<rparr>]\<rparr>"
    by (intro impI, elim conjE) (rule streamer_step_v2_connect)
  have k5: "is_alive_v2 sv tid \<and> stop_event sv \<and> v_stream (threads sv ! tid) = None \<longrightarrow>
        streamer_step_v2 tid sv
          = sv\<lparr>log_queue := log_queue sv @ [END_MARKER],
               threads := (threads sv)[tid := (threads sv ! tid)\<lparr>v_alive := False\<rparr>]\<rparr>"
    by (intro impI, elim conjE) (rule streamer_step_v2_exit)
  have k6: "\<forall>l more. is_alive_v2 sv tid \<and> stop_event sv
          \<and> v_stream (threads sv ! tid) = Some (Line l # more) \<longrightarrow>
        streamer_step_v2 tid sv
          = sv\<lparr>threads := (threads sv)[tid := (threads sv ! tid)\<lparr>v_stream := None\<rparr>]\<rparr>"
    by (intro allI impI, elim conjE) (rule streamer_step_v2_break)
  have k7: "\<forall>e more. is_alive_v2 sv tid
          \<and> v_stream (threads sv ! tid) = Some (OtherException e # more) \<longrightarrow>
        streamer_step_v2 tid sv
          = sv\<lparr>threads := (threads sv)[tid := (threads sv ! tid)\<lparr>v_alive := False\<rparr>]\<rparr>"
    by (intro allI impI, elim conjE) (rule streamer_step_v2_other_exception)
  have k8: "is_alive_v2 sv tid \<and> (v_stream (threads sv ! tid) = None \<longrightarrow> \<not> stop_event sv)
        \<and> (\<forall>e more. v_stream (threads sv ! tid) \<noteq> Some (OtherException e # more)) \<longrightarrow>
        is_alive_v2 (streamer_step_v2 tid sv) tid"
    by (intro impI, elim conjE) (rule streamer_step_v2_goes_on)
  have k9: "\<not> is_alive_v2 sv tid \<longrightarrow> streamer_step_v2 tid sv = sv"
    by (simp add: streamer_step_v2_dead)
  from app k1 v2 k2 k3 k4 k5 k6 k7 k8 k9 show ?thesis
    by (intro conjI)
qed

lemma appv2_connected_facts:
  "is_alive_v2 (streamer_step_v2 0 (snd (select_pod_v2 n ''kavosh'' ''p1'' (follow_once ls) fresh_globals))) 0"
  "\<not> stop_event (streamer_step_v2 0 (snd (select_pod_v2 n ''kavosh'' ''p1'' (follow_once ls) fresh_globals)))"
  "v_stream (threads (streamer_step_v2 0
       (snd (select_pod_v2 n ''kavosh'' ''p1'' (follow_once ls) fresh_globals))) ! 0) = Some (map Line ls)"
  "log_queue (streamer_step_v2 0 (snd (select_pod_v2 n ''kavosh'' ''p1'' (follow_once ls) fresh_globals))) = []"
  unfolding appv2_connected by (simp_all add: is_alive_v2_def)

lemma select_pod_fresh_facts:
  assumes "namespace \<in> set allowed"
  shows "is_alive (snd (select_pod allowed n namespace pname src fresh_session)) 0"
    "\<not> stop_event (snd (select_pod allowed n namespace pname src fresh_session))"
    "t_stream (threads (snd (select_pod allowed n namespace pname src fresh_session)) ! 0) = src"
    "log_queue (snd (select_pod allowed n namespace pname src fresh_session)) = []"
  unfolding select_pod_fresh_session[OF assms] by (simp_all add: is_alive_def)

lemma appv2_connected_any:
  "streamer_step_v2 0 (snd (select_pod_v2 n ''kavosh'' ''p1'' follow fresh_globals))
     = \<lparr>current_pod = Some \<lparr>pod_name = ''p1'', pod_namespace = ''kavosh''\<rparr>,
        log_queue = [], stop_event = False, stream_thread = Some 0,
        redis_client = (\<lambda>key. []),
        threads = [\<lparr>v_pod_name = ''p1'', v_namespace = ''kavosh'', v_follow = follow,
                    v_attempt = 1,
                    v_stream = Some (follow 0 \<lparr>tail_lines = 100, since_time = None\<rparr>),
                    v_last_timestamp = None, v_alive = True\<rparr>]\<rparr>"
  unfolding select_pod_v2_fresh_globals[OF kavosh_allowed_v2]
  by (simp add: streamer_step_v2_def is_alive_v2_def follow_request_def)

theorem worker_queue_output_witness:
  "is_alive (snd (select_pod [''kavosh''] 0 ''kavosh'' ''p1'' [Line ''a'', Line ''b''] fresh_session)) 0
   \<and> \<not> stop_event (snd (select_pod [''kavosh''] 0 ''kavosh'' ''p1'' [Line ''a'', Line ''b''] fresh_session))
   \<and> log_queue (run_streamer 0
         (snd (select_pod [''kavosh''] 0 ''kavosh'' ''p1'' [Line ''a'', Line ''b''] fresh_session)))
       = [''a'', ''b'', END_MARKER]
   \<and> log_queue (run_streamer 0
         (snd (select_pod [''kavosh''] 0 ''kavosh'' ''p1'' [Line ''a'', Line ''b'', ApiException ''boom'']
                 fresh_session)))
       = [''a'', ''b'', error_msg ''boom'', END_MARKER]
   \<and> log_queue (run_streamer 0
         (snd (select_pod [''kavosh''] 0 ''kavosh'' ''p1'' [Line ''a'', Line ''b'', OtherException ''reset'']
                 fresh_session)))
       = [''a'', ''b'', END_MARKER]
   \<and> log_queue (run_streamer 0
         ((join 1 0 (snd (select_pod [''kavosh''] 0 ''kavosh'' ''p1'' [Line ''a'', Line ''b'']
                           fresh_session)))\<lparr>stop_event := True\<rparr>))
       = [''a'', END_MARKER]
   \<and> is_alive_v2 (streamer_step_v2 0 (snd (select_pod_v2 0 ''kavosh'' ''p1''
         (follow_once [''2024-01-01T00:00:00Z hello'', ''2024-01-01T00:00:01Z bye'']) fresh_globals))) 0
   \<and> log_queue ((streamer_step_v2 0 ^^ 2)
         (((streamer_step_v2 0 ^^ 1) (streamer_step_v2 0 (snd (select_pod_v2 0 ''kavosh'' ''p1''
             (follow_once [''2024-01-01T00:00:00Z hello'', ''2024-01-01T00:00:01Z bye''])
             fresh_globals))))\<lparr>stop_event := True\<rparr>))
       = [''hello'', END_MARKER]
   \<and> v_stream (threads (streamer_step_v2 0 (snd (select_pod_v2 0 ''kavosh'' ''p1''
         (\<lambda>k req. [ApiException ''boom'']) fresh_globals))) ! 0) = Some [ApiException ''boom'']
   \<and> log_queue (streamer_step_v2 0 (streamer_step_v2 0 (snd (select_pod_v2 0 ''kavosh'' ''p1''
         (\<lambda>k req. [ApiException ''boom'']) fresh_globals)))) = [error_msg ''boom'']
   \<and> is_alive_v2 (streamer_step_v2 0 (streamer_step_v2 0 (snd (select_pod_v2 0 ''kavosh'' ''p1''
         (\<lambda>k req. [ApiException ''boom'']) fresh_globals)))) 0
   \<and> v_stream (threads (streamer_step_v2 0 (streamer_step_v2 0 (snd (select_pod_v2 0 ''kavosh'' ''p1''
         (\<lambda>k req. [ApiException ''boom'']) fresh_globals)))) ! 0) = None"
proof -
  have h: "''kavosh'' \<in> set [''kavosh'']" by simp
  let ?A = "[''kavosh'']"
  let ?s1 = "snd (select_pod ?A 0 ''kavosh'' ''p1'' [Line ''a'', Line ''b''] fresh_session)"
  let ?s2 = "snd (select_pod ?A 0 ''kavosh'' ''p1'' [Line ''a'', Line ''b'', ApiException ''boom'']
                 fresh_session)"
  let ?s3 = "snd (select_pod ?A 0 ''kavosh'' ''p1'' [Line ''a'', Line ''b'', OtherException ''reset'']
                 fresh_session)"
  let ?sv = "streamer_step_v2 0 (snd (select_pod_v2 0 ''kavosh'' ''p1''
         (follow_once [''2024-01-01T00:00:00Z hello'', ''2024-01-01T00:00:01Z bye'']) fresh_globals))"
  let ?se = "streamer_step_v2 0 (snd (select_pod_v2 0 ''kavosh'' ''p1''
         (\<lambda>k req. [ApiException ''boom'']) fresh_globals))"
  note f1 = select_pod_fresh_facts[OF h, of 0 "''p1''" "[Line ''a'', Line ''b'']"]
  note f2 = select_pod_fresh_facts[OF h, of 0 "''p1''" "[Line ''a'', Line ''b'', ApiException ''boom'']"]
  note f3 = select_pod_fresh_facts[OF h, of 0 "''p1''" "[Line ''a'', Line ''b'', OtherException ''reset'']"]
  note fv = appv2_connected_facts[of 0 "[''2024-01-01T00:00:00Z hello'', ''2024-01-01T00:00:01Z bye'']"]
  have fe: "is_alive_v2 ?se 0" "v_stream (threads ?se ! 0) = Some (ApiException ''boom'' # [])"
    "log_queue ?se = []"
    unfolding appv2_connected_any by (simp_all add: is_alive_v2_def)
  have e1: "t_stream (threads ?s1 ! 0) = map Line [''a'', ''b''] @ []"
    and e2: "t_stream (threads ?s2 ! 0) = map Line [''a'', ''b''] @ [ApiException ''boom'']"
    and e3: "t_stream (threads ?s1 ! 0) = map Line [''a''] @ [Line ''b'']"
    and e4: "t_stream (threads ?s3 ! 0) = map Line [''a'', ''b''] @ [OtherException ''reset'']"
    and ev: "v_stream (threads ?sv ! 0)
               = Some (map Line [''2024-01-01T00:00:00Z hello''] @ [Line ''2024-01-01T00:00:01Z bye''])"
    by (simp_all add: f1 f2 f3 fv)
  note t1 = worker_queue_output[of ?s1 0 "[''a'', ''b'']" "[]" ?se, THEN conjunct1, THEN mp,
      OF conjI[OF f1(1) conjI[OF f1(2) e1]]]
  note r1 = t1[THEN conjunct1, THEN mp, OF refl, THEN conjunct1]
  note t2 = worker_queue_output[of ?s2 0 "[''a'', ''b'']" "[ApiException ''boom'']" ?se,
      THEN conjunct1, THEN mp, OF conjI[OF f2(1) conjI[OF f2(2) e2]]]
  note r2 = t2[THEN conjunct2, THEN conjunct1, THEN spec, THEN spec, THEN mp, OF refl, THEN conjunct1]
  note t3 = worker_queue_output[of ?s3 0 "[''a'', ''b'']" "[OtherException ''reset'']" ?se,
      THEN conjunct1, THEN mp, OF conjI[OF f3(1) conjI[OF f3(2) e4]]]
  note r3 = t3[THEN conjunct2, THEN conjunct2, THEN conjunct1, THEN spec, THEN spec, THEN mp,
      OF refl, THEN conjunct1]
  note t4 = worker_queue_output[of ?s1 0 "[''a'']" "[Line ''b'']" ?se,
      THEN conjunct1, THEN mp, OF conjI[OF f1(1) conjI[OF f1(2) e3]]]
  note r4 = t4[THEN conjunct2, THEN conjunct2, THEN conjunct2, THEN spec, THEN spec, THEN mp,
      OF refl, THEN conjunct1]
  note t5 = worker_queue_output[of ?s1 0 "[''2024-01-01T00:00:00Z hello'']"
      "[Line ''2024-01-01T00:00:01Z bye'']" ?sv, THEN conjunct2, THEN conjunct2, THEN conjunct1,
      THEN mp, OF conjI[OF fv(1) conjI[OF fv(2) ev]]]
  note r5 = t5[THEN conjunct2, THEN spec, THEN spec, THEN mp, OF refl, THEN conjunct1]
  note r6 = worker_queue_output[of ?s1 0 "[''a'', ''b'']" "[]" ?se, THEN conjunct2, THEN conjunct2,
      THEN conjunct2, THEN conjunct2, THEN conjunct1, THEN spec, THEN spec, THEN mp,
      OF conjI[OF fe(1) fe(2)]]
  have l: "length [''a''] = 1" "length [''2024-01-01T00:00:00Z hello''] = 1" by simp_all
  have q1: "log_queue (run_streamer 0 ?s1) = [''a'', ''b'', END_MARKER]"
    using r1 by (simp add: f1(4))
  have q2: "log_queue (run_streamer 0 ?s2) = [''a'', ''b'', error_msg ''boom'', END_MARKER]"
    using r2 by (simp add: f2(4))
  have q3: "log_queue (run_streamer 0 ?s3) = [''a'', ''b'', END_MARKER]"
    using r3 by (simp add: f3(4))
  have q4: "log_queue (run_streamer 0 ((join 1 0 ?s1)\<lparr>stop_event := True\<rparr>)) = [''a'', END_MARKER]"
    using r4[unfolded l] by (simp add: f1(4))
  have q5: "log_queue ((streamer_step_v2 0 ^^ 2) (((streamer_step_v2 0 ^^ 1) ?sv)\<lparr>stop_event := True\<rparr>))
              = [''hello'', END_MARKER]"
    using r5[unfolded l] by (simp add: fv(4) parse_line_examples)
  have q6: "log_queue (streamer_step_v2 0 ?se) = [error_msg ''boom'']"
    "is_alive_v2 (streamer_step_v2 0 ?se) 0"
    "v_stream (threads (streamer_step_v2 0 ?se) ! 0) = None"
    unfolding r6 using fe(1) by (simp_all add: fe(3) is_alive_v2_def)
  have q7: "v_stream (threads ?se ! 0) = Some [ApiException ''boom'']"
    using fe(2) by simp
  from f1(1) f1(2) q1 q2 q3 q4 fv(1) q5 q7 q6 show ?thesis
    by (intro conjI)
qed

text \<open>
  The claim as stated fails on an upstream error and on the reconnecting worker. In
  \<^verbatim>\<open>app.py\<close>, the upstream delivers \<open>a\<close> and raises: the queue gets \<open>a\<close>, the error line,
  and only then the end marker. In \<^verbatim>\<open>appv2.py\<close>, the upstream delivers a line and
  closes: the queue gets the line without its first token and no end marker, and the
  worker, still running, has opened a second connection.
\<close>

theorem worker_queue_not_exactly_lines:
  "log_queue (run_streamer 0
      (snd (select_pod [''kavosh''] 0 ''kavosh'' ''p1'' [Line ''a'', ApiException ''boom'']
              fresh_session)))
     = [''a'', ''Error streaming logs: boom'', ''__END__'']
   \<and> log_queue ((streamer_step_v2 0 ^^ 2) ((streamer_step_v2 0 ^^ 2)
        (snd (select_pod_v2 0 ''kavosh'' ''p1'' (follow_once [''2024-01-01T00:00:00Z hello''])
                fresh_globals))))
     = [''hello'']
   \<and> is_alive_v2 ((streamer_step_v2 0 ^^ 2) ((streamer_step_v2 0 ^^ 2)
        (snd (select_pod_v2 0 ''kavosh'' ''p1'' (follow_once [''2024-01-01T00:00:00Z hello''])
                fresh_globals)))) 0
   \<and> v_attempt (threads ((streamer_step_v2 0 ^^ 2) ((streamer_step_v2 0 ^^ 2)
        (snd (select_pod_v2 0 ''kavosh'' ''p1'' (follow_once [''2024-01-01T00:00:00Z hello''])
                fresh_globals)))) ! 0) = 2"
proof -
  have h: "''kavosh'' \<in> set [''kavosh'']" by simp
  note f = select_pod_fresh_facts[OF h, of 0 "''p1''" "[Line ''a'', ApiException ''boom'']"]
  have e: "t_stream (threads (snd (select_pod [''kavosh''] 0 ''kavosh'' ''p1''
              [Line ''a'', ApiException ''boom''] fresh_session)) ! 0)
             = map Line [''a''] @ ApiException ''boom'' # []"
    by (simp add: f)
  have a: "log_queue (run_streamer 0
      (snd (select_pod [''kavosh''] 0 ''kavosh'' ''p1'' [Line ''a'', ApiException ''boom'']
              fresh_session)))
     = [''a'', ''Error streaming logs: boom'', ''__END__'']"
    unfolding run_streamer_error(1)[OF f(1,2) e]
    by (simp add: f(4) error_msg_def END_MARKER_def)
  show ?thesis
    unfolding appv2_first_line
    by (simp add: a numeral_2_eq_2 streamer_step_v2_def is_alive_v2_def follow_once_def
        parse_line_examples)
qed

end
